theory Spec2Isabelle
  imports Complex_Main "HOL-Library.AList"
begin

section \<open>JavaScript values\<close>

text \<open>
  The values that flow through \<^verbatim>\<open>src/core.js\<close>. Numbers are reals plus \<open>NaN\<close> (the code
  performs no arithmetic on them; it only tests, compares and passes them on). A plain
  object is the list of its own properties in insertion order. \<open>JCanvas\<close> is a canvas
  element, \<open>JElem\<close> any other DOM element, \<open>JImg\<close> a loaded image with its source and its
  natural width and height. Properties inherited from \<^verbatim>\<open>Object.prototype\<close>, and objects
  that override \<^verbatim>\<open>toString\<close> or \<^verbatim>\<open>valueOf\<close>, are not represented.
\<close>

datatype jsval =
    JUndefined
  | JNull
  | JBool bool
  | JNum real
  | JNaN
  | JStr string
  | JArr "jsval list"
  | JObj "(string \<times> jsval) list"
  | JCanvas nat
  | JElem nat
  | JImg jsval nat nat

type_synonym obj = "(string \<times> jsval) list"

text \<open>
  \<^verbatim>\<open>o[k]\<close> and \<^verbatim>\<open>o[k] = v\<close> on a plain object, for a key \<open>k\<close> that names none of the members
  every object inherits from \<^verbatim>\<open>Object.prototype\<close> (\<open>inherited_names\<close> below). For those names
  the program differs from these two functions: a read finds the inherited member
  instead of \<^verbatim>\<open>undefined\<close>, and an assignment to \<^verbatim>\<open>__proto__\<close> calls the prototype setter and
  stores no property. The keys the source itself uses (\<^verbatim>\<open>width\<close>, \<^verbatim>\<open>canvas\<close>, \<^verbatim>\<open>props\<close>, ...) are
  none of them; a statement about a key chosen by the caller says which keys it is about.
\<close>

definition obj_get :: "obj \<Rightarrow> string \<Rightarrow> jsval" where
  "obj_get ob k = (case map_of ob k of None \<Rightarrow> JUndefined | Some v \<Rightarrow> v)"

definition obj_set :: "obj \<Rightarrow> string \<Rightarrow> jsval \<Rightarrow> obj" where
  "obj_set ob k v = AList.update k v ob"

text \<open>The property names of \<^verbatim>\<open>Object.prototype\<close>.\<close>

definition inherited_names :: "string list" where
  "inherited_names =
     [''constructor'', ''hasOwnProperty'', ''isPrototypeOf'', ''propertyIsEnumerable'',
      ''toLocaleString'', ''toString'', ''valueOf'', ''__proto__'', ''__defineGetter__'',
      ''__defineSetter__'', ''__lookupGetter__'', ''__lookupSetter__'']"

text \<open>ToBoolean: what \<^verbatim>\<open>if (v)\<close>, \<^verbatim>\<open>!v\<close> and \<^verbatim>\<open>v || d\<close> test.\<close>

fun truthy :: "jsval \<Rightarrow> bool" where
  "truthy JUndefined = False"
| "truthy JNull = False"
| "truthy (JBool b) = b"
| "truthy (JNum r) = (r \<noteq> 0)"
| "truthy JNaN = False"
| "truthy (JStr s) = (s \<noteq> [])"
| "truthy _ = True"

text \<open>\<^verbatim>\<open>a || b\<close>.\<close>

definition js_or :: "jsval \<Rightarrow> jsval \<Rightarrow> jsval" where
  "js_or a b = (if truthy a then a else b)"

text \<open>\<^verbatim>\<open>v == undefined\<close>: true of \<^verbatim>\<open>undefined\<close> and \<^verbatim>\<open>null\<close> only.\<close>

fun nullish :: "jsval \<Rightarrow> bool" where
  "nullish JUndefined = True"
| "nullish JNull = True"
| "nullish _ = False"

text \<open>
  ToString(v) is the empty string. An array prints as its elements joined by commas,
  \<^verbatim>\<open>undefined\<close> and \<^verbatim>\<open>null\<close> elements printing as nothing.
\<close>

fun prints_empty :: "jsval \<Rightarrow> bool" where
  "prints_empty (JStr s) = (s = [])"
| "prints_empty (JArr []) = True"
| "prints_empty (JArr [e]) = (nullish e \<or> prints_empty e)"
| "prints_empty (JArr (e # e' # es)) = False"
| "prints_empty _ = False"

text \<open>
  \<^verbatim>\<open>v == ''\<close>, the abstract (loose) equality: a boolean and a number are compared with
  ToNumber('') = 0, an object with its primitive (string) form.
\<close>

fun loose_eq_empty :: "jsval \<Rightarrow> bool" where
  "loose_eq_empty JUndefined = False"
| "loose_eq_empty JNull = False"
| "loose_eq_empty (JBool b) = (\<not> b)"
| "loose_eq_empty (JNum r) = (r = 0)"
| "loose_eq_empty JNaN = False"
| "loose_eq_empty v = prints_empty v"

text \<open>
  \<^verbatim>\<open>v.k\<close> for a base that is neither \<^verbatim>\<open>undefined\<close> nor \<^verbatim>\<open>null\<close>. Strings and arrays have
  a \<^verbatim>\<open>length\<close>, a loaded image its natural \<^verbatim>\<open>width\<close> and \<^verbatim>\<open>height\<close>; indexed elements and
  methods are looked up nowhere in the code through this function.
\<close>

fun member :: "jsval \<Rightarrow> string \<Rightarrow> jsval" where
  "member (JObj ob) k = obj_get ob k"
| "member (JStr s) k = (if k = ''length'' then JNum (real (length s)) else JUndefined)"
| "member (JArr xs) k = (if k = ''length'' then JNum (real (length xs)) else JUndefined)"
| "member (JImg src w h) k =
     (if k = ''width'' then JNum (real w) else if k = ''height'' then JNum (real h)
      else JUndefined)"
| "member _ k = JUndefined"

text \<open>\<^verbatim>\<open>v > 0\<close> for the values a \<^verbatim>\<open>length\<close> read yields: a number, or \<^verbatim>\<open>undefined\<close> (ToNumber
  gives NaN, and every comparison with NaN is false). Booleans convert to 0 and 1.\<close>

fun gt_zero :: "jsval \<Rightarrow> bool" where
  "gt_zero (JNum r) = (0 < r)"
| "gt_zero (JBool b) = b"
| "gt_zero _ = False"

section \<open>Errors\<close>

text \<open>
  Every \<^verbatim>\<open>throw new Error(...)\<close> of the source is a constructor named after the condition;
  \<open>TypeError\<close> is the runtime's own error (a property read on \<^verbatim>\<open>undefined\<close> or \<^verbatim>\<open>null\<close>, a
  call of something that is not a function). \<open>NonArrayError\<close> is the rejection reason of
  \<^verbatim>\<open>Promise.each\<close>, \<open>LoadError\<close> that of a failed image load.
\<close>

datatype error =
    TypeError
  | ConfigKeyError string
  | DuplicateSurfaceError
  | ContainerNotFoundError
  | MissingColorError
  | MissingImageError
  | TriggerNotFoundError jsval
  | NonArrayError
  | LoadError

text \<open>\<^verbatim>\<open>v.k\<close> in general.\<close>

definition get_prop :: "jsval \<Rightarrow> string \<Rightarrow> error + jsval" where
  "get_prop v k = (if nullish v then Inl TypeError else Inr (member v k))"

section \<open>The drawing surface, the page and the task queues\<close>

text \<open>
  The 2D context is a recorder: each method call and each property assignment the source
  makes on it is logged, in order, with the canvas it went to.
\<close>

datatype ctxcall =
    BeginPath
  | ClosePath
  | SetFillStyle jsval
  | SetTextAlign jsval
  | SetFont jsval jsval
  | Rect jsval jsval jsval jsval
  | Fill
  | DrawImage5 jsval jsval jsval jsval jsval
  | DrawImage9 jsval jsval jsval jsval jsval jsval jsval jsval jsval
  | FillText jsval jsval jsval

datatype warning = NoBackgroundWarning | EmptyTextWarning

text \<open>
  What is waiting to run. A microtask is a promise reaction: \<open>MEach xs\<close> is the next link
  of the chain \<^verbatim>\<open>Promise.each\<close> builds in \<^verbatim>\<open>renderImage\<close> (call the layer callback on the
  head of \<open>xs\<close>, then go on with the tail), \<open>MReject e\<close> the rejection of the promise
  \<^verbatim>\<open>render\<close> returned. A request is an outstanding \<^verbatim>\<open>makeImage\<close>: for the background, or
  for a layer (its source, the layer, the layers still to come). A timer is a callback
  given to \<^verbatim>\<open>setTimeout(..., 0)\<close>: an image draw (the context, the image and the layer's
  \<^verbatim>\<open>props\<close>, all captured when the image had loaded) or a text draw (the text item).
\<close>

datatype mtask = MEach "jsval list" | MReject error

datatype request = BgReq jsval | LayerReq jsval jsval "jsval list"

datatype timer = DrawTimer "nat option" jsval jsval | TextTimer jsval

record state =
  config :: obj
  fresh :: nat
  created :: "(nat \<times> jsval) list"
  appended :: "(nat \<times> jsval) list"
  listeners :: "nat list"
  calls :: "(nat \<times> ctxcall) list"
  warnings :: "warning list"
  micro :: "mtask list"
  loads :: "request list"
  timers :: "timer list"
  settled :: "(error + unit) list"

text \<open>
  The collaborators the source imports or finds in the browser, as parameters:
  \<^verbatim>\<open>document.querySelector\<close> on the page, and \<^verbatim>\<open>isColor\<close> and \<^verbatim>\<open>colorNameToHex\<close> of
  \<^verbatim>\<open>./utils\<close>.
\<close>

record env =
  querySelector :: "jsval \<Rightarrow> nat option"
  isColor :: "jsval \<Rightarrow> bool"
  colorNameToHex :: "string \<Rightarrow> jsval"

section \<open>The configuration store\<close>

text \<open>The argument of \<^verbatim>\<open>getConfig\<close>: left out, one string, an array of strings, or any
  other truthy value that is neither (a number, \<^verbatim>\<open>true\<close>).\<close>

datatype keyarg = NoKey | Key string | Keys "string list" | OtherKey

text \<open>The loop \<^verbatim>\<open>for (k ...) result[key[k]] = config[key[k]]\<close>.\<close>

fun pick :: "obj \<Rightarrow> string list \<Rightarrow> obj \<Rightarrow> obj" where
  "pick cfg [] result = result"
| "pick cfg (k # ks) result = pick cfg ks (obj_set result k (obj_get cfg k))"

definition getConfig :: "keyarg \<Rightarrow> state \<Rightarrow> error + jsval" where
  "getConfig key s =
     (case key of
        NoKey \<Rightarrow> Inr (JObj (config s))
      | Key k \<Rightarrow>
          if k = [] then Inr (JObj (config s))
          else if loose_eq_empty (obj_get (config s) k) then Inl (ConfigKeyError k)
          else Inr (obj_get (config s) k)
      | Keys ks \<Rightarrow> Inr (JObj (pick (config s) ks []))
      | OtherKey \<Rightarrow> Inr JUndefined)"

text \<open>The arguments of \<^verbatim>\<open>setConfig\<close>: one object of entries, or a key and a value.\<close>

datatype setarg = SetAll obj | SetOne string jsval

text \<open>The loop over \<^verbatim>\<open>Object.entries(newConfig)\<close>.\<close>

fun assign_all :: "obj \<Rightarrow> obj \<Rightarrow> obj" where
  "assign_all cfg [] = cfg"
| "assign_all cfg ((k, v) # es) = assign_all (obj_set cfg k v) es"

definition setConfig :: "setarg \<Rightarrow> state \<Rightarrow> (error + jsval) \<times> state" where
  "setConfig p s =
     (case p of
        SetAll newConfig \<Rightarrow>
          (let s' = s\<lparr>config := assign_all (config s) newConfig\<rparr>
           in (getConfig (Keys (map fst newConfig)) s', s'))
      | SetOne k v \<Rightarrow>
          (let s' = s\<lparr>config := obj_set (config s) k v\<rparr>
           in (getConfig (Keys [k]) s', s')))"

section \<open>The surface\<close>

definition log_call :: "nat \<Rightarrow> ctxcall \<Rightarrow> state \<Rightarrow> state" where
  "log_call c call s = s\<lparr>calls := calls s @ [(c, call)]\<rparr>"

definition warn :: "warning \<Rightarrow> state \<Rightarrow> state" where
  "warn w s = s\<lparr>warnings := warnings s @ [w]\<rparr>"

text \<open>
  \<^verbatim>\<open>getContext\<close>: the context of the canvas in the configuration (\<open>Some c\<close>), or \<^verbatim>\<open>undefined\<close>
  (\<open>None\<close>) when the stored value is falsy. A truthy value that is no canvas has no
  \<^verbatim>\<open>getContext\<close> method.
\<close>

definition getContext :: "state \<Rightarrow> error + nat option" where
  "getContext s =
     (case getConfig (Key ''canvas'') s of
        Inl e \<Rightarrow> Inl e
      | Inr v \<Rightarrow>
          if truthy v then (case v of JCanvas c \<Rightarrow> Inr (Some c) | _ \<Rightarrow> Inl TypeError)
          else Inr None)"

definition changeBackground :: "jsval \<Rightarrow> jsval \<Rightarrow> state \<Rightarrow> (error + nat) \<times> state" where
  "changeBackground type props s =
     (let cfg = pick (config s) [''width'', ''height''] [];
          w = obj_get cfg ''width'';
          h = obj_get cfg ''height''
      in case getContext s of
           Inl e \<Rightarrow> (Inl e, s)
         | Inr None \<Rightarrow> (Inl TypeError, s)
         | Inr (Some c) \<Rightarrow>
             (let s1 = log_call c BeginPath s
              in if type = JStr ''image'' then
                   (case get_prop props ''img'' of
                      Inl e \<Rightarrow> (Inl e, s1)
                    | Inr img \<Rightarrow>
                        if nullish img then (Inl MissingImageError, s1)
                        else (Inr c, log_call c ClosePath
                               (log_call c (DrawImage5 img (JNum 0) (JNum 0) w h) s1)))
                 else if type = JStr ''color'' then
                   (case get_prop props ''color'' of
                      Inl e \<Rightarrow> (Inl e, s1)
                    | Inr color \<Rightarrow>
                        if nullish color then (Inl MissingColorError, s1)
                        else (Inr c, log_call c ClosePath
                               (log_call c Fill
                                 (log_call c (Rect (JNum 0) (JNum 0) w h)
                                   (log_call c (SetFillStyle color) s1)))))
                 else (Inr c, log_call c ClosePath s1)))"

text \<open>
  Modelled from the spec: \<^verbatim>\<open>makeElement\<close> of \<^verbatim>\<open>./utils\<close>, which is not among the sources. "Element
  factory: given an element kind and property bag, return a newly constructed, unattached
  drawing-surface element." The new canvas gets the next unused identity, and the
  property bag is remembered with it.
\<close>

definition makeElement :: "jsval \<Rightarrow> state \<Rightarrow> jsval \<times> state" where
  "makeElement props s =
     (JCanvas (fresh s), s\<lparr>fresh := Suc (fresh s), created := created s @ [(fresh s, props)]\<rparr>)"

definition makeCanvas :: "jsval \<Rightarrow> state \<Rightarrow> (error + jsval) \<times> state" where
  "makeCanvas props s =
     (case getConfig (Key ''canvas'') s of
        Inl e \<Rightarrow> (Inl e, s)
      | Inr v \<Rightarrow>
          if \<not> nullish v then (Inl DuplicateSurfaceError, s)
          else (let (canvas, s1) = makeElement props s;
                    (r, s2) = setConfig (SetOne ''canvas'' canvas) s1
                in (Inr canvas, s2)))"

definition putCanvas :: "env \<Rightarrow> state \<Rightarrow> (error + jsval) \<times> state" where
  "putCanvas env s =
     (let cfg = pick (config s) [''el'', ''width'', ''height''] []
      in case makeCanvas (JObj [(''width'', obj_get cfg ''width''),
                                (''height'', obj_get cfg ''height'')]) s of
           (Inl e, s1) \<Rightarrow> (Inl e, s1)
         | (Inr newCanvas, s1) \<Rightarrow>
             (case querySelector env (obj_get cfg ''el'') of
                Some elem \<Rightarrow> (Inr newCanvas, s1\<lparr>appended := appended s1 @ [(elem, newCanvas)]\<rparr>)
              | None \<Rightarrow> (Inl ContainerNotFoundError, s1)))"

text \<open>
  The result of \<^verbatim>\<open>canvas.toDataURL(`image/${format}`, quality)\<close>: the canvas, the format
  interpolated after \<^verbatim>\<open>image/\<close>, the quality, and what had been drawn on the canvas.
\<close>

datatype payload = DataURL nat jsval jsval "ctxcall list"

definition drawn :: "nat \<Rightarrow> state \<Rightarrow> ctxcall list" where
  "drawn c s = map snd (filter (\<lambda>p. fst p = c) (calls s))"

text \<open>A default parameter value replaces an argument that is \<^verbatim>\<open>undefined\<close>.\<close>

definition default_arg :: "jsval \<Rightarrow> jsval \<Rightarrow> jsval" where
  "default_arg v d = (if v = JUndefined then d else v)"

definition getImage :: "jsval \<Rightarrow> jsval \<Rightarrow> state \<Rightarrow> error + payload" where
  "getImage format0 quality0 s =
     (let format = default_arg format0 (JStr ''jpeg'');
          quality = default_arg quality0 (JNum 1)
      in case getConfig (Key ''canvas'') s of
           Inl e \<Rightarrow> Inl e
         | Inr v \<Rightarrow>
             (case v of
                JCanvas c \<Rightarrow> Inr (DataURL c format quality (drawn c s))
              | _ \<Rightarrow> Inl TypeError))"

definition enableDownload :: "env \<Rightarrow> state \<Rightarrow> (error + unit) \<times> state" where
  "enableDownload env s =
     (case getConfig (Key ''download'') s of
        Inl e \<Rightarrow> (Inl e, s)
      | Inr download \<Rightarrow>
          (case get_prop download ''length'' of
             Inl e \<Rightarrow> (Inl e, s)
           | Inr len \<Rightarrow>
               if gt_zero len then
                 (case querySelector env download of
                    Some downloadButton \<Rightarrow>
                      (Inr (), s\<lparr>listeners := listeners s @ [downloadButton]\<rparr>)
                  | None \<Rightarrow> (Inl (TriggerNotFoundError download), s))
               else (Inr (), s)))"

definition writeText :: "jsval \<Rightarrow> jsval \<Rightarrow> state \<Rightarrow> (error + nat) \<times> state" where
  "writeText text props0 s =
     (let props = default_arg props0 (JObj [])
      in case getContext s of
           Inl e \<Rightarrow> (Inl e, s)
         | Inr ctx \<Rightarrow>
             (let cfg = pick (config s) [''color'', ''align''] [];
                  s1 = (if loose_eq_empty text \<or> nullish text then warn EmptyTextWarning s else s)
              in if nullish props then (Inl TypeError, s1)
                 else (case ctx of
                         None \<Rightarrow> (Inl TypeError, s1)
                       | Some c \<Rightarrow>
                           (Inr c,
                            log_call c (FillText text (js_or (member props ''x'') (JNum 0))
                                                      (js_or (member props ''y'') (JNum 0)))
                             (log_call c (SetFont (js_or (member props ''size'') (JNum 20))
                                                  (js_or (member props ''family'') (JStr ''Arial'')))
                               (log_call c (SetTextAlign (js_or (member props ''align'')
                                                                (obj_get cfg ''align'')))
                                 (log_call c (SetFillStyle (js_or (member props ''color'')
                                                                  (obj_get cfg ''color'')))
                                   s1)))))))"

section \<open>Rendering\<close>

text \<open>
  \<^verbatim>\<open>Promise.each(arr, fn)\<close>, up to what it returns at once: a rejected promise
  (\<open>EachReject\<close>), a resolved one (\<open>EachEmpty\<close>, the source's "empty case"), the chain over
  the elements of an array (\<open>EachChain\<close>), or no promise at all (\<open>EachThrow\<close>) when the value
  has a truthy \<^verbatim>\<open>length\<close> and no \<^verbatim>\<open>reduce\<close> method, as a string has.
\<close>

datatype each_result = EachReject | EachEmpty | EachThrow | EachChain "jsval list"

definition promise_each :: "jsval \<Rightarrow> each_result" where
  "promise_each arr =
     (if \<not> truthy arr \<or> \<not> truthy (member arr ''length'') then EachReject
      else if member arr ''length'' = JNum 0 then EachEmpty
      else (case arr of JArr xs \<Rightarrow> EachChain xs | _ \<Rightarrow> EachThrow))"

text \<open>The first statement of \<^verbatim>\<open>render\<close>: the background of the template is copied into the
  configuration when the configuration has none.\<close>

definition render_step1 :: "state \<Rightarrow> (error + unit) \<times> state" where
  "render_step1 s =
     (let cfg = pick (config s) [''background'', ''template''] []
      in if \<not> truthy (obj_get cfg ''background'') then
           (case get_prop (obj_get cfg ''template'') ''background'' of
              Inl e \<Rightarrow> (Inl e, s)
            | Inr tb \<Rightarrow>
                (case get_prop tb ''length'' of
                   Inl e \<Rightarrow> (Inl e, s)
                 | Inr len \<Rightarrow>
                     if gt_zero len then (Inr (), snd (setConfig (SetOne ''background'' tb) s))
                     else (Inr (), s)))
         else (Inr (), s))"

text \<open>\<^verbatim>\<open>renderBackground\<close>. A background that is no colour is requested as an image; the
  draw waits for the load (\<open>BgReq\<close>) and nothing waits for the draw.\<close>

definition renderBackground :: "env \<Rightarrow> state \<Rightarrow> (error + unit) \<times> state" where
  "renderBackground env s =
     (case getConfig (Key ''background'') s of
        Inl e \<Rightarrow> (Inl e, s)
      | Inr background \<Rightarrow>
          if isColor env background then
            (case changeBackground (JStr ''color'') (JObj [(''color'', background)]) s of
               (Inl e, s1) \<Rightarrow> (Inl e, s1)
             | (Inr c, s1) \<Rightarrow> (Inr (), s1))
          else if \<not> nullish background \<and> \<not> loose_eq_empty background then
            (Inr (), s\<lparr>loads := loads s @ [BgReq background]\<rparr>)
          else
            (case changeBackground (JStr ''color'')
                    (JObj [(''color'', colorNameToHex env ''black'')]) s of
               (Inl e, s1) \<Rightarrow> (Inl e, s1)
             | (Inr c, s1) \<Rightarrow> (Inr (), warn NoBackgroundWarning s1)))"

text \<open>
  \<^verbatim>\<open>renderImage\<close>, the part that runs at once. It returns a promise: already rejected
  (\<open>Some e\<close>), or pending on the chain (\<open>None\<close>), whose first link is then a queued
  microtask.
\<close>

definition renderImage :: "state \<Rightarrow> (error + error option) \<times> state" where
  "renderImage s =
     (case getConfig (Key ''template'') s of
        Inl e \<Rightarrow> (Inl e, s)
      | Inr template \<Rightarrow>
          (case get_prop template ''images'' of
             Inl e \<Rightarrow> (Inl e, s)
           | Inr images \<Rightarrow>
               (case promise_each images of
                  EachReject \<Rightarrow> (Inr (Some NonArrayError), s)
                | EachEmpty \<Rightarrow> (Inr None, s\<lparr>micro := micro s @ [MEach []]\<rparr>)
                | EachThrow \<Rightarrow> (Inl TypeError, s)
                | EachChain xs \<Rightarrow> (Inr None, s\<lparr>micro := micro s @ [MEach xs]\<rparr>))))"

text \<open>
  \<^verbatim>\<open>renderText\<close>. Each link of its chain only sets a timer, so the links run one after the
  other in the same microtask checkpoint and the timers are set in list order.
\<close>

definition renderText :: "state \<Rightarrow> (error + unit) \<times> state" where
  "renderText s =
     (case getConfig (Key ''template'') s of
        Inl e \<Rightarrow> (Inl e, s)
      | Inr template \<Rightarrow>
          (case get_prop template ''text'' of
             Inl e \<Rightarrow> (Inl e, s)
           | Inr text \<Rightarrow>
               (case promise_each text of
                  EachReject \<Rightarrow> (Inr (), s)
                | EachEmpty \<Rightarrow> (Inr (), s)
                | EachThrow \<Rightarrow> (Inl TypeError, s)
                | EachChain xs \<Rightarrow> (Inr (), s\<lparr>timers := timers s @ map TextTimer xs\<rparr>))))"

text \<open>
  \<^verbatim>\<open>render\<close>, the part that runs at once. \<^verbatim>\<open>Promise.all\<close> waits for the promise of
  \<^verbatim>\<open>renderImage\<close> alone (\<^verbatim>\<open>renderBackground\<close> returns \<^verbatim>\<open>undefined\<close>); when that promise is
  already rejected, so will be the one \<^verbatim>\<open>render\<close> returns, and \<^verbatim>\<open>renderText\<close> is not called.
\<close>

definition render :: "env \<Rightarrow> state \<Rightarrow> (error + unit) \<times> state" where
  "render env s =
     (case render_step1 s of
        (Inl e, s1) \<Rightarrow> (Inl e, s1)
      | (Inr u, s1) \<Rightarrow>
          (case renderBackground env s1 of
             (Inl e, s2) \<Rightarrow> (Inl e, s2)
           | (Inr u, s2) \<Rightarrow>
               (case renderImage s2 of
                  (Inl e, s3) \<Rightarrow> (Inl e, s3)
                | (Inr (Some e), s3) \<Rightarrow> (Inr (), s3\<lparr>micro := micro s3 @ [MReject e]\<rparr>)
                | (Inr None, s3) \<Rightarrow> (Inr (), s3))))"

section \<open>The event loop\<close>

definition reject :: "error \<Rightarrow> state \<Rightarrow> state" where
  "reject e s = s\<lparr>settled := settled s @ [Inl e]\<rparr>"

text \<open>
  One microtask. A link of the layer chain calls \<^verbatim>\<open>makeImage(image.value)\<close>, and the chain
  waits for that load; a failing link rejects the chain, which skips the links left and
  the call of \<^verbatim>\<open>renderText\<close>. Past the last link, \<^verbatim>\<open>Promise.all\<close> is fulfilled and its
  reaction calls \<^verbatim>\<open>renderText\<close>.
\<close>

fun run_micro :: "mtask \<Rightarrow> state \<Rightarrow> state" where
  "run_micro (MReject e) s = reject e s"
| "run_micro (MEach []) s =
     (case renderText s of
        (Inl e, s1) \<Rightarrow> reject e s1
      | (Inr u, s1) \<Rightarrow> s1\<lparr>settled := settled s1 @ [Inr ()]\<rparr>)"
| "run_micro (MEach (layer # rest)) s =
     (case get_prop layer ''value'' of
        Inl e \<Rightarrow> reject e s
      | Inr src \<Rightarrow> s\<lparr>loads := loads s @ [LayerReq src layer rest]\<rparr>)"

text \<open>The microtask checkpoint: the queue is run until it is empty.\<close>

function drain :: "state \<Rightarrow> state" where
  "drain s = (case micro s of [] \<Rightarrow> s | m # ms \<Rightarrow> drain (run_micro m (s\<lparr>micro := ms\<rparr>)))"
  by pat_completeness auto

lemma micro_renderText: "micro (snd (renderText s)) = micro s"
  by (simp add: renderText_def split: sum.splits each_result.splits)

lemma micro_run_micro: "micro (run_micro m s) = micro s"
proof (cases m)
  case (MEach xs)
  show ?thesis
  proof (cases xs)
    case Nil
    with MEach micro_renderText [of s] show ?thesis
      by (auto simp: reject_def split: prod.splits sum.splits)
  next
    case (Cons layer rest)
    with MEach show ?thesis
      by (simp add: reject_def split: sum.splits)
  qed
next
  case (MReject e)
  then show ?thesis by (simp add: reject_def)
qed

termination drain
  by (relation "measure (\<lambda>s. length (micro s))") (simp_all add: micro_run_micro)

declare drain.simps [simp del]

text \<open>
  A load that ends. For the background, the reaction draws the image and its errors go
  nowhere. For a layer, the reaction takes the context, captures \<^verbatim>\<open>image.props\<close> and sets
  the timer of the draw; then the chain goes on.
\<close>

definition on_load :: "request \<Rightarrow> (nat \<times> nat) option \<Rightarrow> state \<Rightarrow> state" where
  "on_load rq outcome s =
     (case rq of
        BgReq src \<Rightarrow>
          (case outcome of
             None \<Rightarrow> s
           | Some (w, h) \<Rightarrow>
               snd (changeBackground (JStr ''image'') (JObj [(''img'', JImg src w h)]) s))
      | LayerReq src layer rest \<Rightarrow>
          (case outcome of
             None \<Rightarrow> reject LoadError s
           | Some (w, h) \<Rightarrow>
               (case getContext s of
                  Inl e \<Rightarrow> reject e s
                | Inr ctx \<Rightarrow>
                    s\<lparr>timers := timers s @ [DrawTimer ctx (JImg src w h) (member layer ''props'')],
                      micro := micro s @ [MEach rest]\<rparr>)))"

text \<open>A timer that fires. An error in the callback is reported and otherwise lost.\<close>

definition fire :: "timer \<Rightarrow> state \<Rightarrow> state" where
  "fire t s =
     (case t of
        DrawTimer ctx img prop \<Rightarrow>
          (case ctx of
             None \<Rightarrow> s
           | Some c \<Rightarrow>
               if nullish prop then s
               else log_call c
                      (DrawImage9 img
                         (js_or (member prop ''sx'') (JNum 0))
                         (js_or (member prop ''sy'') (JNum 0))
                         (js_or (member prop ''swidth'') (member img ''width''))
                         (js_or (member prop ''sheight'') (member img ''height''))
                         (js_or (member prop ''x'') (JNum 0))
                         (js_or (member prop ''y'') (JNum 0))
                         (js_or (member prop ''width'') (member img ''width''))
                         (js_or (member prop ''height'') (member img ''height''))) s)
      | TextTimer val \<Rightarrow>
          (case get_prop val ''value'' of
             Inl e \<Rightarrow> s
           | Inr text \<Rightarrow> snd (writeText text (member val ''props'') s)))"

text \<open>
  Modelled from the spec: \<^verbatim>\<open>makeImage\<close> of \<^verbatim>\<open>./utils\<close>, which is not among the sources. "Image
  loader: given a source identifier, asynchronously returns a decoded image handle or
  fails the task." Its promise is settled by an event of the browser.

  What the browser does next: the oldest timer fires (timers of equal delay fire in the
  order they were set), or the \<open>i\<close>-th outstanding load ends, with an image of some
  natural size or with an error. After each, the microtasks run.
\<close>

datatype event = Tick | Loaded nat "(nat \<times> nat) option"

definition step :: "event \<Rightarrow> state \<Rightarrow> state" where
  "step ev s =
     (case ev of
        Tick \<Rightarrow> (case timers s of [] \<Rightarrow> s | t # ts \<Rightarrow> drain (fire t (s\<lparr>timers := ts\<rparr>)))
      | Loaded i outcome \<Rightarrow>
          if i < length (loads s) then
            drain (on_load (loads s ! i) outcome
                     (s\<lparr>loads := take i (loads s) @ drop (Suc i) (loads s)\<rparr>))
          else s)"

fun run :: "event list \<Rightarrow> state \<Rightarrow> state" where
  "run [] s = s"
| "run (ev # evs) s = run evs (step ev s)"

section \<open>Construction\<close>

definition default_config :: obj where
  "default_config =
     [(''align'', JStr ''left''),
      (''background'', JUndefined),
      (''canvas'', JUndefined),
      (''color'', JStr ''black''),
      (''download'', JStr ''''),
      (''el'', JStr ''#cardmaker''),
      (''width'', JNum 400),
      (''height'', JNum 250),
      (''template'', JObj [])]"

text \<open>
  \<^verbatim>\<open>new CardMaker(configs)\<close> on a page in state \<open>page\<close>: the instance's configuration starts
  from the defaults; the four calls follow, and the first that throws ends the
  construction. The microtasks that \<^verbatim>\<open>render\<close> queued run after the constructor has
  returned or thrown (\<open>drain\<close>).
\<close>

definition constructor :: "env \<Rightarrow> obj \<Rightarrow> state \<Rightarrow> (error + unit) \<times> state" where
  "constructor env configs page =
     (let s0 = page\<lparr>config := default_config\<rparr>;
          s1 = snd (setConfig (SetAll configs) s0)
      in case putCanvas env s1 of
           (Inl e, s2) \<Rightarrow> (Inl e, s2)
         | (Inr c, s2) \<Rightarrow>
             (case render env s2 of
                (Inl e, s3) \<Rightarrow> (Inl e, s3)
              | (Inr u, s3) \<Rightarrow> enableDownload env s3))"

text \<open>An empty page state: nothing created, drawn, queued or settled yet.\<close>

definition blank :: state where
  "blank = \<lparr>config = [], fresh = 0, created = [], appended = [], listeners = [], calls = [],
            warnings = [], micro = [], loads = [], timers = [], settled = []\<rparr>"

section \<open>The order of draws\<close>

text \<open>
  The two kinds of draw whose order matters: a layer is drawn with the nine-argument
  \<^verbatim>\<open>drawImage\<close>, a text item with \<^verbatim>\<open>fillText\<close>.
\<close>

fun is_layer_draw :: "ctxcall \<Rightarrow> bool" where
  "is_layer_draw (DrawImage9 img sx sy sw sh x y w h) = True"
| "is_layer_draw _ = False"

fun is_text_draw :: "ctxcall \<Rightarrow> bool" where
  "is_text_draw (FillText t x y) = True"
| "is_text_draw _ = False"

text \<open>No layer is drawn after a text.\<close>

fun images_before_text :: "ctxcall list \<Rightarrow> bool" where
  "images_before_text [] = True"
| "images_before_text (c # cs) =
     ((is_text_draw c \<longrightarrow> (\<forall>d \<in> set cs. \<not> is_layer_draw d)) \<and> images_before_text cs)"

fun is_text_timer :: "timer \<Rightarrow> bool" where
  "is_text_timer (TextTimer v) = True"
| "is_text_timer _ = False"

fun is_each :: "mtask \<Rightarrow> bool" where
  "is_each (MEach xs) = True"
| "is_each _ = False"

fun is_layer_request :: "request \<Rightarrow> bool" where
  "is_layer_request (LayerReq src layer rest) = True"
| "is_layer_request _ = False"

text \<open>
  The promise of \<^verbatim>\<open>renderImage\<close> is not settled yet: a link of the layer chain is queued, or
  a layer is loading. An outstanding load of the background is no part of it:
  \<^verbatim>\<open>renderBackground\<close> returns nothing, so \<^verbatim>\<open>Promise.all\<close> in \<^verbatim>\<open>render\<close> waits for the layer
  chain alone.
\<close>

definition layer_chain_pending :: "state \<Rightarrow> bool" where
  "layer_chain_pending s =
     ((\<exists>m \<in> set (micro s). is_each m) \<or> (\<exists>r \<in> set (loads s). is_layer_request r))"

text \<open>
  For the proof: a layer draw has rank 0, a text draw rank 1, every other call none; a
  timer has the rank of the draw it will make. The timeline of a state is what has been
  drawn since the \<open>n\<close>-th call, then what the timers will draw.
\<close>

definition call_rank :: "ctxcall \<Rightarrow> nat list" where
  "call_rank c = (if is_layer_draw c then [0] else if is_text_draw c then [1] else [])"

definition ranks :: "(nat \<times> ctxcall) list \<Rightarrow> nat list" where
  "ranks cs = concat (map (\<lambda>p. call_rank (snd p)) cs)"

definition timer_ranks :: "timer list \<Rightarrow> nat list" where
  "timer_ranks ts = map (\<lambda>t. if is_text_timer t then 1 else 0) ts"

definition phase_count :: "state \<Rightarrow> nat" where
  "phase_count s = length (filter is_each (micro s)) + length (filter is_layer_request (loads s))"

definition timeline :: "nat \<Rightarrow> state \<Rightarrow> nat list" where
  "timeline n s = ranks (drop n (calls s)) @ timer_ranks (timers s)"

definition ordered :: "nat \<Rightarrow> state \<Rightarrow> bool" where
  "ordered n s =
     (n \<le> length (calls s) \<and> sorted (timeline n s) \<and> phase_count s \<le> 1
      \<and> (phase_count s = 1 \<longrightarrow> 1 \<notin> set (timeline n s)))"

text \<open>A field of a layer's \<^verbatim>\<open>props\<close> when it is there and truthy, the default otherwise.\<close>

definition field_or :: "obj \<Rightarrow> string \<Rightarrow> jsval \<Rightarrow> jsval" where
  "field_or props k d = (case map_of props k of None \<Rightarrow> d | Some v \<Rightarrow> if truthy v then v else d)"

text \<open>What a call draws: the image of a layer draw, the string of a text draw.\<close>

fun drawn_item :: "ctxcall \<Rightarrow> jsval list" where
  "drawn_item (DrawImage9 img sx sy sw sh x y w h) = [img]"
| "drawn_item (FillText t x y) = [t]"
| "drawn_item _ = []"

definition drawn_items :: "(nat \<times> ctxcall) list \<Rightarrow> jsval list" where
  "drawn_items cs = concat (map (\<lambda>p. drawn_item (snd p)) cs)"

text \<open>What a timer is to draw.\<close>

fun timer_item :: "timer \<Rightarrow> jsval" where
  "timer_item (DrawTimer ctx img pr) = img"
| "timer_item (TextTimer v) = member v ''value''"

text \<open>A timer whose callback will not throw: the draw has a context and a \<^verbatim>\<open>props\<close>, the
  text item is there and its \<^verbatim>\<open>props\<close> is not \<^verbatim>\<open>null\<close>.\<close>

fun timer_ok :: "timer \<Rightarrow> bool" where
  "timer_ok (DrawTimer ctx img pr) = (ctx \<noteq> None \<and> \<not> nullish pr)"
| "timer_ok (TextTimer v) = (\<not> nullish v \<and> member v ''props'' \<noteq> JNull)"

text \<open>The timer set for a layer once its image, of natural size \<open>d\<close>, has loaded.\<close>

definition layer_timer :: "nat \<Rightarrow> jsval \<Rightarrow> nat \<times> nat \<Rightarrow> timer" where
  "layer_timer c layer d =
     DrawTimer (Some c) (JImg (member layer ''value'') (fst d) (snd d)) (member layer ''props'')"

section \<open>A sample page and sample cards\<close>

text \<open>
  A page with a container \<^verbatim>\<open>#cardmaker\<close> and a button \<^verbatim>\<open>#save\<close>, on which \<^verbatim>\<open>blue\<close> and
  \<^verbatim>\<open>black\<close> are colours.
\<close>

definition sample_env :: env where
  "sample_env =
     \<lparr>querySelector = (\<lambda>v. if v = JStr ''#cardmaker'' then Some 1
                            else if v = JStr ''#save'' then Some 2 else None),
      isColor = (\<lambda>v. v = JStr ''blue'' \<or> v = JStr ''black''),
      colorNameToHex = (\<lambda>n. JStr ''#000000'')\<rparr>"

text \<open>The template of the scenario: a blue background, no image, one text.\<close>

definition scenario_template :: jsval where
  "scenario_template =
     JObj [(''background'', JStr ''blue''),
           (''images'', JArr []),
           (''text'', JArr [JObj [(''value'', JStr ''Hi''),
                                  (''props'', JObj [(''x'', JNum 10), (''y'', JNum 20)])]])]"

text \<open>A template with two layers and two texts.\<close>

definition layered_template :: jsval where
  "layered_template =
     JObj [(''background'', JStr ''blue''),
           (''images'', JArr [JObj [(''value'', JStr ''a.png''),
                                    (''props'', JObj [(''x'', JNum 5), (''swidth'', JNum 0)])],
                              JObj [(''value'', JStr ''b.png''), (''props'', JObj [])]]),
           (''text'', JArr [JObj [(''value'', JStr ''Hi''),
                                  (''props'', JObj [(''x'', JNum 10), (''y'', JNum 20)])],
                            JObj [(''value'', JStr ''there''), (''props'', JObj [])]])]"

text \<open>An instance as the constructor has it when it calls \<^verbatim>\<open>render\<close>: the defaults, the given
  template, and the canvas that \<^verbatim>\<open>putCanvas\<close> made.\<close>

definition instance_with :: "jsval \<Rightarrow> state" where
  "instance_with template =
     snd (putCanvas sample_env
            (snd (setConfig (SetAll [(''template'', template)])
                    (blank\<lparr>config := default_config\<rparr>))))"

text \<open>A template whose background is an image to load (\<^verbatim>\<open>bg.png\<close> is no colour on the sample
  page), with one layer and one text.\<close>

definition url_background_template :: jsval where
  "url_background_template =
     JObj [(''background'', JStr ''bg.png''),
           (''images'', JArr [JObj [(''value'', JStr ''a.png''), (''props'', JObj [])]]),
           (''text'', JArr [JObj [(''value'', JStr ''Hi''),
                                  (''props'', JObj [(''x'', JNum 10), (''y'', JNum 20)])]])]"

text \<open>The layer's image (the second outstanding load, after the background's) arrives, and
  the two timers fire: the layer is drawn, then the text.\<close>

definition layer_first_schedule :: "event list" where
  "layer_first_schedule = [Loaded 1 (Some (64, 32)), Tick, Tick]"

text \<open>Both loads of the two-layer card succeed, each draw timer fires, then the text timers.\<close>

definition layered_schedule :: "event list" where
  "layered_schedule =
     [Loaded 0 (Some (64, 32)), Tick, Loaded 0 (Some (10, 10)), Tick, Tick, Tick]"

section \<open>Properties of the store\<close>

lemma obj_get_set: "obj_get (obj_set ob k v) k' = (if k' = k then v else obj_get ob k')"
  by (simp add: obj_get_def obj_set_def update_conv')

lemma obj_get_pick:
  "obj_get (pick cfg ks r) k = (if k \<in> set ks then obj_get cfg k else obj_get r k)"
  by (induction ks arbitrary: r) (auto simp: obj_get_set)

lemma obj_get_Nil: "obj_get [] k = JUndefined"
  by (simp add: obj_get_def)

lemma obj_get_assign_all_other:
  "k \<notin> fst ` set es \<Longrightarrow> obj_get (assign_all cfg es) k = obj_get cfg k"
  by (induction es arbitrary: cfg) (auto simp: obj_get_set)

lemma obj_get_assign_all_same:
  "\<forall>v. (k, v) \<in> set es \<longrightarrow> v = w \<Longrightarrow> obj_get cfg k = w \<Longrightarrow>
   obj_get (assign_all cfg es) k = w"
  by (induction es arbitrary: cfg) (auto simp: obj_get_set)

lemma obj_get_assign_all_distinct:
  "distinct (map fst es) \<Longrightarrow> (k, v) \<in> set es \<Longrightarrow> obj_get (assign_all cfg es) k = v"
proof (induction es arbitrary: cfg)
  case Nil
  then show ?case by simp
next
  case (Cons e es)
  obtain k' v' where e: "e = (k', v')" by (cases e)
  show ?case
  proof (cases "(k, v) \<in> set es")
    case True
    with Cons e show ?thesis by simp
  next
    case False
    with Cons.prems e have kv: "k' = k" "v' = v" by auto
    with Cons.prems e have "k \<notin> fst ` set es" by auto
    with e kv show ?thesis
      by (simp add: obj_get_assign_all_other obj_get_set)
  qed
qed

lemma snd_setConfig_one: "snd (setConfig (SetOne k v) s) = s\<lparr>config := obj_set (config s) k v\<rparr>"
  by (simp add: setConfig_def Let_def)

lemma snd_setConfig_all: "snd (setConfig (SetAll es) s) = s\<lparr>config := assign_all (config s) es\<rparr>"
  by (simp add: setConfig_def Let_def)

lemma fst_setConfig_one: "fst (setConfig (SetOne k v) s) = Inr (JObj [(k, v)])"
  by (simp add: setConfig_def Let_def getConfig_def obj_get_set) (simp add: obj_set_def)

lemma fst_setConfig_all:
  "fst (setConfig (SetAll es) s) = Inr (JObj (pick (assign_all (config s) es) (map fst es) []))"
  by (simp add: setConfig_def Let_def getConfig_def)

section \<open>What each operation leaves alone\<close>

lemma config_changeBackground: "config (snd (changeBackground ty props s)) = config s"
  by (simp add: changeBackground_def log_call_def Let_def get_prop_def
      split: sum.splits option.splits)

lemma config_makeCanvas:
  "k \<noteq> ''canvas'' \<Longrightarrow> obj_get (config (snd (makeCanvas props s))) k = obj_get (config s) k"
  by (simp add: makeCanvas_def makeElement_def setConfig_def Let_def obj_get_set
      split: sum.splits)

lemma config_putCanvas:
  "k \<noteq> ''canvas'' \<Longrightarrow> obj_get (config (snd (putCanvas env s))) k = obj_get (config s) k"
proof -
  assume k: "k \<noteq> ''canvas''"
  let ?p = "JObj [(''width'', obj_get (pick (config s) [''el'', ''width'', ''height''] []) ''width''),
                  (''height'', obj_get (pick (config s) [''el'', ''width'', ''height''] []) ''height'')]"
  obtain r s1 where m: "makeCanvas ?p s = (r, s1)" by (cases "makeCanvas ?p s")
  from config_makeCanvas [OF k, of ?p s] m
  have "obj_get (config s1) k = obj_get (config s) k" by simp
  with m show ?thesis
    by (simp add: putCanvas_def Let_def split: sum.splits option.splits)
qed

lemma config_render_step1:
  "k \<noteq> ''background'' \<Longrightarrow> obj_get (config (snd (render_step1 s))) k = obj_get (config s) k"
  by (simp add: render_step1_def Let_def snd_setConfig_one obj_get_set split: sum.splits)

lemma config_renderBackground: "config (snd (renderBackground env s)) = config s"
proof -
  have "config (snd (changeBackground ty props s)) = config s" for ty props
    by (rule config_changeBackground)
  then have "changeBackground ty props s = (r, s1) \<Longrightarrow> config s1 = config s" for ty props r s1
    by (metis snd_conv)
  then show ?thesis
    by (auto simp: renderBackground_def warn_def split: sum.splits prod.splits)
qed

lemma config_renderImage: "config (snd (renderImage s)) = config s"
  by (simp add: renderImage_def split: sum.splits each_result.splits)

lemma config_render:
  "k \<noteq> ''background'' \<Longrightarrow> obj_get (config (snd (render env s))) k = obj_get (config s) k"
proof -
  assume k: "k \<noteq> ''background''"
  obtain r1 s1 where a: "render_step1 s = (r1, s1)" by (cases "render_step1 s")
  obtain r2 s2 where b: "renderBackground env s1 = (r2, s2)" by (cases "renderBackground env s1")
  obtain r3 s3 where c: "renderImage s2 = (r3, s3)" by (cases "renderImage s2")
  from config_render_step1 [OF k, of s] a have 1: "obj_get (config s1) k = obj_get (config s) k"
    by simp
  from config_renderBackground [of env s1] b have 2: "config s2 = config s1" by simp
  from config_renderImage [of s2] c have 3: "config s3 = config s2" by simp
  from a b c 1 2 3 show ?thesis
    by (simp add: render_def split: sum.splits option.splits)
qed

section \<open>The order of draws is kept by every step\<close>

lemma ranks_append: "ranks (xs @ ys) = ranks xs @ ranks ys"
  by (simp add: ranks_def)

lemma ranks_Nil: "ranks [] = []"
  by (simp add: ranks_def)

lemma ranks_le_1: "x \<in> set (ranks cs) \<Longrightarrow> x \<le> 1"
  by (auto simp: ranks_def call_rank_def split: if_splits)

lemma timer_ranks_le_1: "x \<in> set (timer_ranks ts) \<Longrightarrow> x \<le> 1"
  by (auto simp: timer_ranks_def)

lemma timeline_le_1: "x \<in> set (timeline n s) \<Longrightarrow> x \<le> 1"
  by (auto simp: timeline_def dest: ranks_le_1 timer_ranks_le_1)

lemma sorted_all_zero: "\<forall>x \<in> set xs. x = (0::nat) \<Longrightarrow> sorted xs"
  by (induction xs) auto

lemma sorted_zeros_append:
  assumes "1 \<notin> set xs" and "\<forall>x \<in> set xs. x \<le> (1::nat)" and "sorted ys"
  shows "sorted (xs @ ys)"
proof -
  have z: "x = 0" if "x \<in> set xs" for x
    using that assms(1,2) by (metis le_neq_implies_less less_one)
  then have "sorted xs" by (simp add: sorted_all_zero)
  with z assms(3) show ?thesis by (auto simp: sorted_append)
qed

lemma sorted_drop_middle: "sorted (a @ b @ c) \<Longrightarrow> sorted (a @ (c::nat list))"
  by (auto simp: sorted_append)

lemma ranks_sorted_images_before_text:
  "sorted (ranks cs) \<Longrightarrow> images_before_text (map snd cs)"
proof (induction cs)
  case Nil
  then show ?case by simp
next
  case (Cons p cs)
  from Cons.prems have s: "sorted (call_rank (snd p) @ ranks cs)"
    by (simp add: ranks_def)
  then have "sorted (ranks cs)" by (simp add: sorted_append)
  with Cons.IH have ih: "images_before_text (map snd cs)" .
  have "\<not> is_layer_draw (snd d)" if t: "is_text_draw (snd p)" and d: "d \<in> set cs" for d
  proof
    assume l: "is_layer_draw (snd d)"
    from t have "call_rank (snd p) = [1]"
      by (cases "snd p") (simp_all add: call_rank_def)
    moreover from l d have "0 \<in> set (ranks cs)"
      by (force simp: ranks_def call_rank_def)
    ultimately show False using s by (auto simp: sorted_append)
  qed
  with ih show ?case by auto
qed

lemma changeBackground_effect:
  "\<exists>cs. calls (snd (changeBackground ty p s)) = calls s @ cs \<and> ranks cs = []
        \<and> timers (snd (changeBackground ty p s)) = timers s
        \<and> micro (snd (changeBackground ty p s)) = micro s
        \<and> loads (snd (changeBackground ty p s)) = loads s"
proof (cases "getContext s")
  case (Inl e)
  then show ?thesis by (simp add: changeBackground_def Let_def ranks_Nil)
next
  case (Inr ctx)
  show ?thesis
  proof (cases ctx)
    case None
    with Inr show ?thesis by (simp add: changeBackground_def Let_def ranks_Nil)
  next
    case (Some c)
    with Inr show ?thesis
      by (simp add: changeBackground_def Let_def log_call_def get_prop_def ranks_def
          call_rank_def)
  qed
qed

lemma writeText_effect:
  "\<exists>cs. calls (snd (writeText t p s)) = calls s @ cs \<and> (ranks cs = [] \<or> ranks cs = [1])
        \<and> timers (snd (writeText t p s)) = timers s
        \<and> micro (snd (writeText t p s)) = micro s
        \<and> loads (snd (writeText t p s)) = loads s"
proof (cases "getContext s")
  case (Inl e)
  then show ?thesis by (simp add: writeText_def Let_def ranks_Nil)
next
  case (Inr ctx)
  show ?thesis
  proof (cases ctx)
    case None
    with Inr show ?thesis by (simp add: writeText_def Let_def warn_def ranks_Nil)
  next
    case (Some c)
    with Inr show ?thesis
      by (simp add: writeText_def Let_def log_call_def warn_def ranks_def call_rank_def)
  qed
qed

lemma renderText_effect:
  "\<exists>xs. timers (snd (renderText s)) = timers s @ map TextTimer xs
        \<and> calls (snd (renderText s)) = calls s
        \<and> micro (snd (renderText s)) = micro s
        \<and> loads (snd (renderText s)) = loads s"
  by (auto simp: renderText_def split: sum.splits each_result.splits)

lemma fire_effect:
  "\<exists>cs. calls (fire t s) = calls s @ cs \<and> (ranks cs = [] \<or> ranks cs = timer_ranks [t])
        \<and> timers (fire t s) = timers s
        \<and> micro (fire t s) = micro s
        \<and> loads (fire t s) = loads s"
proof (cases t)
  case (DrawTimer ctx img pr)
  then show ?thesis
    by (cases ctx) (simp_all add: fire_def log_call_def ranks_def call_rank_def timer_ranks_def)
next
  case (TextTimer val)
  show ?thesis
  proof (cases "get_prop val ''value''")
    case (Inl e)
    with TextTimer show ?thesis by (simp add: fire_def ranks_Nil)
  next
    case (Inr str)
    with TextTimer writeText_effect [of str "member val ''props''" s] show ?thesis
      by (simp add: fire_def timer_ranks_def)
  qed
qed

lemma timer_ranks_append: "timer_ranks (xs @ ys) = timer_ranks xs @ timer_ranks ys"
  by (simp add: timer_ranks_def)

lemma timer_ranks_Cons: "timer_ranks (t # ts) = timer_ranks [t] @ timer_ranks ts"
  by (simp add: timer_ranks_def)

lemma ordered_calls:
  assumes o: "ordered n s"
    and c: "calls s' = calls s @ cs" "ranks cs = []"
    and q: "timers s' = timers s" "micro s' = micro s" "loads s' = loads s"
  shows "ordered n s'"
proof -
  from o have n: "n \<le> length (calls s)" by (simp add: ordered_def)
  with c q have "timeline n s' = timeline n s"
    by (simp add: timeline_def ranks_append)
  moreover from q have "phase_count s' = phase_count s" by (simp add: phase_count_def)
  ultimately show ?thesis using o n c by (simp add: ordered_def)
qed

lemma ordered_fire:
  assumes o: "ordered n s" and t: "timers s = t # ts"
  shows "ordered n (fire t (s\<lparr>timers := ts\<rparr>))"
proof -
  let ?s' = "fire t (s\<lparr>timers := ts\<rparr>)"
  from fire_effect [of t "s\<lparr>timers := ts\<rparr>"]
  obtain cs where c: "calls ?s' = calls s @ cs"
    and r: "ranks cs = [] \<or> ranks cs = timer_ranks [t]"
    and q: "timers ?s' = ts" "micro ?s' = micro s" "loads ?s' = loads s"
    by auto
  from o have n: "n \<le> length (calls s)" by (simp add: ordered_def)
  have tl: "timeline n s = ranks (drop n (calls s)) @ timer_ranks [t] @ timer_ranks ts"
    using t timer_ranks_Cons [of t ts] by (simp add: timeline_def)
  have tl': "timeline n ?s' = ranks (drop n (calls s)) @ ranks cs @ timer_ranks ts"
    using c q n by (simp add: timeline_def ranks_append)
  from q have p: "phase_count ?s' = phase_count s" by (simp add: phase_count_def)
  from o have so: "sorted (timeline n s)" by (simp add: ordered_def)
  from r have "sorted (timeline n ?s') \<and> set (timeline n ?s') \<subseteq> set (timeline n s)"
  proof
    assume "ranks cs = []"
    with tl tl' so sorted_drop_middle [of "ranks (drop n (calls s))" "timer_ranks [t]" "timer_ranks ts"]
    show ?thesis by auto
  next
    assume "ranks cs = timer_ranks [t]"
    with tl tl' so show ?thesis by simp
  qed
  with o p n c show ?thesis by (auto simp: ordered_def)
qed

lemma phase_count_micro_Cons:
  "micro s = m # ms \<Longrightarrow>
   phase_count s = (if is_each m then 1 else 0) + phase_count (s\<lparr>micro := ms\<rparr>)"
  by (simp add: phase_count_def)

lemma timer_ranks_text: "timer_ranks (map TextTimer ys) = replicate (length ys) 1"
  by (induction ys) (simp_all add: timer_ranks_def)

lemma ordered_fields:
  "calls a = calls b \<Longrightarrow> timers a = timers b \<Longrightarrow> micro a = micro b \<Longrightarrow> loads a = loads b \<Longrightarrow>
   ordered n a = ordered n b"
  by (simp add: ordered_def timeline_def phase_count_def)

lemma ordered_run_micro:
  assumes o: "ordered n s" and m: "micro s = m # ms"
  shows "ordered n (run_micro m (s\<lparr>micro := ms\<rparr>))"
proof -
  let ?s0 = "s\<lparr>micro := ms\<rparr>"
  from o have n: "n \<le> length (calls s)" and so: "sorted (timeline n s)"
    and pc: "phase_count s \<le> 1" and no1: "phase_count s = 1 \<longrightarrow> 1 \<notin> set (timeline n s)"
    by (simp_all add: ordered_def)
  have tl0: "timeline n ?s0 = timeline n s" by (simp add: timeline_def)
  show ?thesis
  proof (cases m)
    case (MReject e)
    with m have "phase_count (reject e ?s0) = phase_count s"
      by (simp add: phase_count_def reject_def)
    moreover have "timeline n (reject e ?s0) = timeline n s"
      by (simp add: timeline_def reject_def)
    moreover have "calls (reject e ?s0) = calls s" by (simp add: reject_def)
    ultimately show ?thesis using o MReject by (simp add: ordered_def)
  next
    case (MEach xs)
    with m pc have p0: "phase_count ?s0 = 0" and p1: "phase_count s = 1"
      using phase_count_micro_Cons [OF m] by simp_all
    with no1 have z: "1 \<notin> set (timeline n s)" by simp
    have o0: "ordered n ?s0"
      using n so p0 tl0 by (simp add: ordered_def)
    show ?thesis
    proof (cases xs)
      case Nil
      let ?s1 = "snd (renderText ?s0)"
      from renderText_effect [of ?s0] obtain ys where
        e: "timers ?s1 = timers s @ map TextTimer ys" "calls ?s1 = calls s"
           "micro ?s1 = ms" "loads ?s1 = loads s"
        by auto
      have p: "phase_count ?s1 = 0" using p0 e by (simp add: phase_count_def)
      have tl: "timeline n ?s1 = timeline n s @ replicate (length ys) 1"
        using e by (simp add: timeline_def timer_ranks_append timer_ranks_text)
      have "sorted (timeline n s @ replicate (length ys) 1)"
        using so by (auto simp: sorted_append dest: timeline_le_1)
      with p tl n e have o1: "ordered n ?s1" by (simp add: ordered_def)
      obtain r s1 where rt: "renderText ?s0 = (r, s1)" by (cases "renderText ?s0")
      then have s1: "?s1 = s1" by simp
      have "\<exists>st. run_micro m ?s0 = s1\<lparr>settled := st\<rparr>"
        using MEach Nil rt by (cases r) (auto simp: reject_def)
      then obtain st where "run_micro m ?s0 = s1\<lparr>settled := st\<rparr>" ..
      moreover have "ordered n (s1\<lparr>settled := st\<rparr>) = ordered n s1"
        by (rule ordered_fields) simp_all
      ultimately show ?thesis using o1 rt by simp
    next
      case (Cons layer rest)
      show ?thesis
      proof (cases "get_prop layer ''value''")
        case (Inl e)
        with MEach Cons have "run_micro m ?s0 = reject e ?s0" by simp
        moreover have "ordered n (reject e ?s0) = ordered n ?s0"
          by (rule ordered_fields) (simp_all add: reject_def)
        ultimately show ?thesis using o0 by simp
      next
        case (Inr src)
        with MEach Cons
        have r: "run_micro m ?s0 = ?s0\<lparr>loads := loads ?s0 @ [LayerReq src layer rest]\<rparr>"
          by simp
        have "phase_count (?s0\<lparr>loads := loads ?s0 @ [LayerReq src layer rest]\<rparr>) = 1"
          using p0 by (simp add: phase_count_def)
        moreover have "timeline n (?s0\<lparr>loads := loads ?s0 @ [LayerReq src layer rest]\<rparr>)
                       = timeline n s"
          by (simp add: timeline_def)
        ultimately show ?thesis using r n so z by (simp add: ordered_def)
      qed
    qed
  qed
qed

lemma ordered_drain: "ordered n s \<Longrightarrow> ordered n (drain s)"
proof (induction s rule: drain.induct)
  case (1 s)
  show ?case
  proof (cases "micro s")
    case Nil
    with "1.prems" show ?thesis by (simp add: drain.simps [of s])
  next
    case (Cons m ms)
    from "1.prems" Cons have "ordered n (run_micro m (s\<lparr>micro := ms\<rparr>))"
      by (rule ordered_run_micro)
    with "1.IH" [OF Cons] have "ordered n (drain (run_micro m (s\<lparr>micro := ms\<rparr>)))" .
    with Cons show ?thesis by (simp add: drain.simps [of s])
  qed
qed

lemma filter_remove_nth:
  assumes "i < length xs"
  shows "length (filter P xs)
         = (if P (xs ! i) then 1 else 0) + length (filter P (take i xs @ drop (Suc i) xs))"
proof -
  from assms have "xs = take i xs @ xs ! i # drop (Suc i) xs"
    by (rule id_take_nth_drop)
  then have "length (filter P xs)
             = length (filter P (take i xs @ xs ! i # drop (Suc i) xs))"
    by simp
  then show ?thesis by simp
qed

lemma ordered_on_load:
  assumes o: "ordered n s" and i: "i < length (loads s)"
  shows "ordered n (on_load (loads s ! i) outcome
                      (s\<lparr>loads := take i (loads s) @ drop (Suc i) (loads s)\<rparr>))"
proof -
  let ?rq = "loads s ! i"
  let ?s0 = "s\<lparr>loads := take i (loads s) @ drop (Suc i) (loads s)\<rparr>"
  from o have n: "n \<le> length (calls s)" and so: "sorted (timeline n s)"
    and pc: "phase_count s \<le> 1" and no1: "phase_count s = 1 \<longrightarrow> 1 \<notin> set (timeline n s)"
    by (simp_all add: ordered_def)
  have tl0: "timeline n ?s0 = timeline n s" by (simp add: timeline_def)
  have p: "phase_count s = (if is_layer_request ?rq then 1 else 0) + phase_count ?s0"
    using filter_remove_nth [OF i, of is_layer_request] by (simp add: phase_count_def)
  show ?thesis
  proof (cases ?rq)
    case (BgReq src)
    with p have p0: "phase_count ?s0 = phase_count s" by simp
    with o tl0 have o0: "ordered n ?s0" by (simp add: ordered_def)
    show ?thesis
    proof (cases outcome)
      case None
      with BgReq o0 show ?thesis by (simp add: on_load_def)
    next
      case (Some wh)
      obtain w h where wh: "wh = (w, h)" by (cases wh)
      let ?s1 = "snd (changeBackground (JStr ''image'') (JObj [(''img'', JImg src w h)]) ?s0)"
      from changeBackground_effect [of "JStr ''image''" "JObj [(''img'', JImg src w h)]" ?s0]
      obtain cs where "calls ?s1 = calls ?s0 @ cs" "ranks cs = []" "timers ?s1 = timers ?s0"
        "micro ?s1 = micro ?s0" "loads ?s1 = loads ?s0"
        by auto
      with o0 have "ordered n ?s1" by (rule ordered_calls)
      with BgReq Some wh show ?thesis by (simp add: on_load_def)
    qed
  next
    case (LayerReq src layer rest)
    with p pc have p0: "phase_count ?s0 = 0" and p1: "phase_count s = 1" by simp_all
    with no1 have z: "1 \<notin> set (timeline n s)" by simp
    from n so p0 tl0 have o0: "ordered n ?s0" by (simp add: ordered_def)
    have rj: "ordered n (reject e ?s0)" for e
    proof -
      have "ordered n (reject e ?s0) = ordered n ?s0"
        by (rule ordered_fields) (simp_all add: reject_def)
      with o0 show ?thesis by simp
    qed
    show ?thesis
    proof (cases outcome)
      case None
      with LayerReq rj show ?thesis by (simp add: on_load_def)
    next
      case (Some wh)
      obtain w h where wh: "wh = (w, h)" by (cases wh)
      show ?thesis
      proof (cases "getContext ?s0")
        case (Inl e)
        with LayerReq Some wh rj show ?thesis by (simp add: on_load_def)
      next
        case (Inr ctx)
        let ?s1 = "?s0\<lparr>timers := timers ?s0 @ [DrawTimer ctx (JImg src w h) (member layer ''props'')],
                        micro := micro ?s0 @ [MEach rest]\<rparr>"
        have "phase_count ?s1 = 1" using p0 by (simp add: phase_count_def)
        moreover have t1: "timeline n ?s1 = timeline n s @ [0]"
          by (simp add: timeline_def timer_ranks_def)
        moreover have "sorted (timeline n s @ [0])"
          using z sorted_zeros_append [of "timeline n s" "[0]"] timeline_le_1 [of _ n s]
          by auto
        ultimately have "ordered n ?s1" using n z by (simp add: ordered_def)
        with LayerReq Some wh Inr show ?thesis by (simp add: on_load_def)
      qed
    qed
  qed
qed

lemma ordered_step: "ordered n s \<Longrightarrow> ordered n (step ev s)"
proof (cases ev)
  case Tick
  assume o: "ordered n s"
  show ?thesis
  proof (cases "timers s")
    case Nil
    with Tick o show ?thesis by (simp add: step_def)
  next
    case (Cons t ts)
    with o have "ordered n (fire t (s\<lparr>timers := ts\<rparr>))" by (rule ordered_fire)
    then have "ordered n (drain (fire t (s\<lparr>timers := ts\<rparr>)))" by (rule ordered_drain)
    with Tick Cons show ?thesis by (simp add: step_def)
  qed
next
  case (Loaded i outcome)
  assume o: "ordered n s"
  show ?thesis
  proof (cases "i < length (loads s)")
    case True
    with o have "ordered n (on_load (loads s ! i) outcome
                      (s\<lparr>loads := take i (loads s) @ drop (Suc i) (loads s)\<rparr>))"
      by (rule ordered_on_load)
    then have "ordered n (drain (on_load (loads s ! i) outcome
                      (s\<lparr>loads := take i (loads s) @ drop (Suc i) (loads s)\<rparr>)))"
      by (rule ordered_drain)
    with Loaded True show ?thesis by (simp add: step_def)
  next
    case False
    with Loaded o show ?thesis by (simp add: step_def)
  qed
qed

lemma ordered_run: "ordered n s \<Longrightarrow> ordered n (run evs s)"
  by (induction evs arbitrary: s) (simp_all add: ordered_step)

lemma render_step1_effect:
  "calls (snd (render_step1 s)) = calls s \<and> timers (snd (render_step1 s)) = timers s
   \<and> micro (snd (render_step1 s)) = micro s \<and> loads (snd (render_step1 s)) = loads s"
  by (simp add: render_step1_def Let_def snd_setConfig_one split: sum.splits)

lemma renderBackground_effect:
  "\<exists>cs ls. calls (snd (renderBackground env s)) = calls s @ cs \<and> ranks cs = []
        \<and> timers (snd (renderBackground env s)) = timers s
        \<and> micro (snd (renderBackground env s)) = micro s
        \<and> loads (snd (renderBackground env s)) = loads s @ ls
        \<and> filter is_layer_request ls = []"
proof -
  have cb: "\<exists>cs. calls s1 = calls s @ cs \<and> ranks cs = [] \<and> timers s1 = timers s
               \<and> micro s1 = micro s \<and> loads s1 = loads s"
    if "changeBackground ty p s = (r, s1)" for ty p r s1
    using changeBackground_effect [of ty p s] that by simp
  show ?thesis
  proof (cases "getConfig (Key ''background'') s")
    case (Inl e)
    then show ?thesis by (simp add: renderBackground_def ranks_Nil)
  next
    case (Inr bg)
    show ?thesis
    proof (cases "isColor env bg")
      case True
      obtain r s1 where c: "changeBackground (JStr ''color'') (JObj [(''color'', bg)]) s = (r, s1)"
        by (cases "changeBackground (JStr ''color'') (JObj [(''color'', bg)]) s")
      from cb [OF c] Inr True c show ?thesis
        by (cases r) (auto simp: renderBackground_def)
    next
      case False
      show ?thesis
      proof (cases "\<not> nullish bg \<and> \<not> loose_eq_empty bg")
        case True
        with Inr False show ?thesis
          by (simp add: renderBackground_def ranks_Nil)
      next
        case nb: False
        obtain r s1 where c: "changeBackground (JStr ''color'')
                                (JObj [(''color'', colorNameToHex env ''black'')]) s = (r, s1)"
          by (cases "changeBackground (JStr ''color'')
                       (JObj [(''color'', colorNameToHex env ''black'')]) s")
        from cb [OF c] Inr False nb c show ?thesis
          by (cases r) (auto simp: renderBackground_def warn_def)
      qed
    qed
  qed
qed

lemma renderImage_effect:
  "\<exists>ms. calls (snd (renderImage s)) = calls s \<and> timers (snd (renderImage s)) = timers s
        \<and> loads (snd (renderImage s)) = loads s
        \<and> micro (snd (renderImage s)) = micro s @ ms \<and> length (filter is_each ms) \<le> 1
        \<and> (\<forall>e. fst (renderImage s) = Inr (Some e) \<longrightarrow> ms = [])"
  by (auto simp: renderImage_def split: sum.splits each_result.splits)

lemma render_effect:
  "\<exists>cs ms ls. calls (snd (render env s)) = calls s @ cs \<and> ranks cs = []
        \<and> timers (snd (render env s)) = timers s
        \<and> micro (snd (render env s)) = micro s @ ms \<and> length (filter is_each ms) \<le> 1
        \<and> loads (snd (render env s)) = loads s @ ls \<and> filter is_layer_request ls = []"
proof -
  obtain r1 s1 where a: "render_step1 s = (r1, s1)" by (cases "render_step1 s")
  obtain r2 s2 where b: "renderBackground env s1 = (r2, s2)" by (cases "renderBackground env s1")
  obtain r3 s3 where c: "renderImage s2 = (r3, s3)" by (cases "renderImage s2")
  from render_step1_effect [of s] a
  have 1: "calls s1 = calls s" "timers s1 = timers s" "micro s1 = micro s" "loads s1 = loads s"
    by simp_all
  from renderBackground_effect [of env s1] b 1 obtain cs ls where
    2: "calls s2 = calls s @ cs" "ranks cs = []" "timers s2 = timers s" "micro s2 = micro s"
       "loads s2 = loads s @ ls" "filter is_layer_request ls = []"
    by auto
  from renderImage_effect [of s2] c 2 obtain ms where
    3: "calls s3 = calls s @ cs" "timers s3 = timers s" "loads s3 = loads s @ ls"
       "micro s3 = micro s @ ms" "length (filter is_each ms) \<le> 1"
       "\<forall>e. r3 = Inr (Some e) \<longrightarrow> ms = []"
    by auto
  show ?thesis
  proof (cases r1)
    case (Inl e)
    with a 1 show ?thesis by (simp add: render_def ranks_Nil)
  next
    case r1: (Inr u1)
    show ?thesis
    proof (cases r2)
      case (Inl e)
      with a b r1 2 show ?thesis by (simp add: render_def)
    next
      case r2: (Inr u2)
      show ?thesis
      proof (cases r3)
        case (Inl e)
        with a b c r1 r2 2 3 show ?thesis by (simp add: render_def)
      next
        case (Inr pr)
        show ?thesis
        proof (cases pr)
          case None
          with a b c r1 r2 Inr 2 3 show ?thesis by (simp add: render_def)
        next
          case (Some e)
          with Inr 3 have "ms = []" by simp
          with a b c r1 r2 Inr Some 2 3 show ?thesis by (simp add: render_def)
        qed
      qed
    qed
  qed
qed

lemma ordered_render:
  assumes "micro s = []" and "loads s = []" and "timers s = []"
  shows "ordered (length (calls s)) (snd (render env s))"
proof -
  let ?s' = "snd (render env s)"
  from render_effect [of env s] assms obtain cs ms ls where
    e: "calls ?s' = calls s @ cs" "ranks cs = []" "timers ?s' = []"
       "micro ?s' = ms" "length (filter is_each ms) \<le> 1"
       "loads ?s' = ls" "filter is_layer_request ls = []"
    by auto
  then have "timeline (length (calls s)) ?s' = []"
    by (simp add: timeline_def timer_ranks_def)
  moreover from e have "phase_count ?s' \<le> 1" by (simp add: phase_count_def)
  ultimately show ?thesis using e by (simp add: ordered_def)
qed

lemma micro_drain: "micro (drain s) = []"
proof (induction s rule: drain.induct)
  case (1 s)
  then show ?case by (cases "micro s") (simp_all add: drain.simps [of s])
qed

lemma drain_idle: "micro s = [] \<Longrightarrow> drain s = s"
  by (simp add: drain.simps [of s])

lemma phase_count_pending: "layer_chain_pending s \<longleftrightarrow> 0 < phase_count s"
  by (auto simp: layer_chain_pending_def phase_count_def filter_empty_conv)

lemma step_idle: "loads s = [] \<Longrightarrow> timers s = [] \<Longrightarrow> step ev s = s"
  by (simp add: step_def split: event.splits)

lemma run_idle: "loads s = [] \<Longrightarrow> timers s = [] \<Longrightarrow> run evs s = s"
  by (induction evs) (simp_all add: step_idle)

lemma run_micro_effect:
  "calls (run_micro m s) = calls s \<and> config (run_micro m s) = config s
   \<and> (\<exists>ts. timers (run_micro m s) = timers s @ ts)"
proof (cases m)
  case (MReject e)
  then show ?thesis by (simp add: reject_def)
next
  case (MEach xs)
  show ?thesis
  proof (cases xs)
    case Nil
    obtain r s1 where rt: "renderText s = (r, s1)" by (cases "renderText s")
    from renderText_effect [of s] rt obtain ys where
      "timers s1 = timers s @ map TextTimer ys" "calls s1 = calls s"
      by auto
    moreover from rt have "config s1 = config s"
      by (auto simp: renderText_def split: sum.splits each_result.splits)
    ultimately show ?thesis using MEach Nil rt
      by (cases r) (simp_all add: reject_def)
  next
    case (Cons layer rest)
    with MEach show ?thesis by (simp add: reject_def split: sum.splits)
  qed
qed

lemma drain_effect:
  "calls (drain s) = calls s \<and> config (drain s) = config s
   \<and> (\<exists>ts. timers (drain s) = timers s @ ts)"
proof (induction s rule: drain.induct)
  case (1 s)
  show ?case
  proof (cases "micro s")
    case Nil
    then show ?thesis by (simp add: drain.simps [of s])
  next
    case (Cons m ms)
    from run_micro_effect [of m "s\<lparr>micro := ms\<rparr>"] "1.IH" [OF Cons] Cons
    show ?thesis by (auto simp: drain.simps [of s])
  qed
qed

section \<open>Every draw is made\<close>

lemma drawn_items_append: "drawn_items (xs @ ys) = drawn_items xs @ drawn_items ys"
  by (simp add: drawn_items_def)

lemma fire_ok:
  assumes "timer_ok t" and "getContext s = Inr (Some c)"
  shows "\<exists>cs. calls (fire t s) = calls s @ cs \<and> drawn_items cs = [timer_item t]
          \<and> config (fire t s) = config s \<and> micro (fire t s) = micro s
          \<and> loads (fire t s) = loads s \<and> timers (fire t s) = timers s
          \<and> settled (fire t s) = settled s"
proof (cases t)
  case (DrawTimer ctx img pr)
  with assms(1) obtain c' where "ctx = Some c'" by auto
  with DrawTimer assms(1) show ?thesis
    by (simp add: fire_def log_call_def drawn_items_def)
next
  case (TextTimer v)
  with assms(1) have v: "\<not> nullish v" and p: "member v ''props'' \<noteq> JNull" by simp_all
  from p have "\<not> nullish (default_arg (member v ''props'') (JObj []))"
    by (cases "member v ''props''") (simp_all add: default_arg_def)
  with TextTimer v assms(2) show ?thesis
    by (simp add: fire_def get_prop_def writeText_def Let_def log_call_def warn_def
        drawn_items_def)
qed

lemma getConfig_queues:
  "getConfig k (s\<lparr>loads := ls\<rparr>) = getConfig k s"
  "getConfig k (s\<lparr>timers := ts\<rparr>) = getConfig k s"
  "getConfig k (s\<lparr>micro := ms\<rparr>) = getConfig k s"
  "getConfig k (s\<lparr>calls := cs\<rparr>) = getConfig k s"
  by (cases k; simp add: getConfig_def)+

lemma getContext_queues:
  "getContext (s\<lparr>loads := ls\<rparr>) = getContext s"
  "getContext (s\<lparr>timers := ts\<rparr>) = getContext s"
  "getContext (s\<lparr>micro := ms\<rparr>) = getContext s"
  "getContext (s\<lparr>calls := cs\<rparr>) = getContext s"
  by (simp_all add: getContext_def getConfig_queues)

lemma getContext_config: "config a = config b \<Longrightarrow> getContext a = getContext b"
  by (simp add: getContext_def getConfig_def)

lemma run_append: "run (xs @ ys) s = run ys (run xs s)"
  by (induction xs arbitrary: s) simp_all

lemma run_ticks:
  assumes "\<forall>t \<in> set ts. timer_ok t" and "getContext s = Inr (Some c)"
    and "micro s = []" and "timers s = ts"
  shows "drawn_items (calls (run (replicate (length ts) Tick) s))
           = drawn_items (calls s) @ map timer_item ts
         \<and> (\<exists>cs. calls (run (replicate (length ts) Tick) s) = calls s @ cs)
         \<and> timers (run (replicate (length ts) Tick) s) = []
         \<and> loads (run (replicate (length ts) Tick) s) = loads s
         \<and> settled (run (replicate (length ts) Tick) s) = settled s"
  using assms
proof (induction ts arbitrary: s)
  case Nil
  then show ?case by simp
next
  case (Cons t ts)
  let ?s0 = "s\<lparr>timers := ts\<rparr>"
  let ?s1 = "fire t ?s0"
  from Cons.prems have ok: "timer_ok t" and gc: "getContext ?s0 = Inr (Some c)"
    by (simp_all add: getContext_queues)
  from fire_ok [OF ok gc] Cons.prems obtain cs where
    f: "calls ?s1 = calls s @ cs" "drawn_items cs = [timer_item t]" "config ?s1 = config s"
       "micro ?s1 = []" "loads ?s1 = loads s" "timers ?s1 = ts" "settled ?s1 = settled s"
    by auto
  from f have d: "drain ?s1 = ?s1" by (simp add: drain_idle)
  with Cons.prems have st: "step Tick s = ?s1" by (simp add: step_def)
  from f Cons.prems have gc1: "getContext ?s1 = Inr (Some c)"
    by (simp add: getContext_config [of ?s1 s])
  from Cons.prems have "\<forall>t \<in> set ts. timer_ok t" by simp
  from Cons.IH [OF this gc1 f(4) f(6)] f st show ?case
    by (auto simp: drawn_items_append)
qed

lemma promise_each_array:
  "promise_each (JArr xs) = (if xs = [] then EachReject else EachChain xs)"
  by (simp add: promise_each_def)

lemma renderText_array:
  assumes "getConfig (Key ''template'') s = Inr tpl" and "\<not> nullish tpl"
    and "member tpl ''text'' = JArr items"
  shows "renderText s = (Inr (), s\<lparr>timers := timers s @ map TextTimer items\<rparr>)"
  using assms by (simp add: renderText_def get_prop_def promise_each_array)

lemma drain_single:
  assumes "micro s = [m]"
  shows "drain s = run_micro m (s\<lparr>micro := []\<rparr>)"
proof -
  have "micro (run_micro m (s\<lparr>micro := []\<rparr>)) = []"
    by (simp add: micro_run_micro)
  then have "drain (run_micro m (s\<lparr>micro := []\<rparr>)) = run_micro m (s\<lparr>micro := []\<rparr>)"
    by (rule drain_idle)
  with assms show ?thesis by (simp add: drain.simps [of s])
qed

lemma run_loads:
  assumes "getContext s = Inr (Some c)"
    and "getConfig (Key ''template'') s = Inr tpl" and "\<not> nullish tpl"
    and "member tpl ''text'' = JArr items"
    and "micro s = []" and "loads s = [LayerReq (member l ''value'') l rest]"
    and "\<forall>x \<in> set rest. \<not> nullish x" and "length ds = length rest"
  shows "timers (run (map (\<lambda>d. Loaded 0 (Some d)) (d # ds)) s)
           = timers s @ map2 (layer_timer c) (l # rest) (d # ds) @ map TextTimer items
         \<and> calls (run (map (\<lambda>d. Loaded 0 (Some d)) (d # ds)) s) = calls s
         \<and> config (run (map (\<lambda>d. Loaded 0 (Some d)) (d # ds)) s) = config s
         \<and> micro (run (map (\<lambda>d. Loaded 0 (Some d)) (d # ds)) s) = []
         \<and> loads (run (map (\<lambda>d. Loaded 0 (Some d)) (d # ds)) s) = []
         \<and> settled (run (map (\<lambda>d. Loaded 0 (Some d)) (d # ds)) s) = settled s @ [Inr ()]"
  using assms
proof (induction rest arbitrary: s l d ds)
  case Nil
  obtain w h where d: "d = (w, h)" by (cases d)
  let ?s0 = "s\<lparr>loads := []\<rparr>"
  let ?s1 = "?s0\<lparr>timers := timers s @ [layer_timer c l d], micro := [MEach []]\<rparr>"
  let ?s2 = "?s1\<lparr>micro := []\<rparr>"
  from Nil.prems have gc: "getContext ?s0 = Inr (Some c)"
    by (simp add: getContext_queues)
  with Nil.prems d have ol: "on_load (loads s ! 0) (Some d) ?s0 = ?s1"
    by (simp add: on_load_def layer_timer_def)
  from Nil.prems have "getConfig (Key ''template'') ?s2 = Inr tpl"
    by (simp add: getConfig_queues)
  with Nil.prems have rt: "renderText ?s2
      = (Inr (), ?s2\<lparr>timers := timers ?s2 @ map TextTimer items\<rparr>)"
    by (intro renderText_array) simp_all
  have "drain ?s1 = run_micro (MEach []) ?s2"
    by (rule drain_single) simp
  with rt have dr: "drain ?s1
      = ?s2\<lparr>timers := timers ?s2 @ map TextTimer items, settled := settled s @ [Inr ()]\<rparr>"
    by simp
  from Nil.prems ol have "step (Loaded 0 (Some d)) s = drain ?s1"
    by (simp add: step_def)
  with dr Nil.prems show ?case by simp
next
  case (Cons l' rest')
  obtain w h where d: "d = (w, h)" by (cases d)
  from Cons.prems obtain d' ds' where ds: "ds = d' # ds'" by (cases ds) auto
  let ?s0 = "s\<lparr>loads := []\<rparr>"
  let ?s1 = "?s0\<lparr>timers := timers s @ [layer_timer c l d], micro := [MEach (l' # rest')]\<rparr>"
  let ?s2 = "?s1\<lparr>micro := [], loads := [LayerReq (member l' ''value'') l' rest']\<rparr>"
  from Cons.prems have gc: "getContext ?s0 = Inr (Some c)"
    by (simp add: getContext_queues)
  with Cons.prems d have ol: "on_load (loads s ! 0) (Some d) ?s0 = ?s1"
    by (simp add: on_load_def layer_timer_def)
  have "drain ?s1 = run_micro (MEach (l' # rest')) (?s1\<lparr>micro := []\<rparr>)"
    by (rule drain_single) simp
  with Cons.prems have dr: "drain ?s1 = ?s2"
    by (simp add: get_prop_def)
  from Cons.prems ol have st: "step (Loaded 0 (Some d)) s = drain ?s1"
    by (simp add: step_def)
  have ih: "timers (run (map (\<lambda>d. Loaded 0 (Some d)) (d' # ds')) ?s2)
           = timers ?s2 @ map2 (layer_timer c) (l' # rest') (d' # ds') @ map TextTimer items
         \<and> calls (run (map (\<lambda>d. Loaded 0 (Some d)) (d' # ds')) ?s2) = calls ?s2
         \<and> config (run (map (\<lambda>d. Loaded 0 (Some d)) (d' # ds')) ?s2) = config ?s2
         \<and> micro (run (map (\<lambda>d. Loaded 0 (Some d)) (d' # ds')) ?s2) = []
         \<and> loads (run (map (\<lambda>d. Loaded 0 (Some d)) (d' # ds')) ?s2) = []
         \<and> settled (run (map (\<lambda>d. Loaded 0 (Some d)) (d' # ds')) ?s2) = settled ?s2 @ [Inr ()]"
  proof (rule Cons.IH)
    from Cons.prems show "getContext ?s2 = Inr (Some c)"
      by (simp add: getContext_queues)
    from Cons.prems show "getConfig (Key ''template'') ?s2 = Inr tpl"
      by (simp add: getConfig_queues)
    from Cons.prems show "\<not> nullish tpl" "member tpl ''text'' = JArr items" by simp_all
    show "micro ?s2 = []" "loads ?s2 = [LayerReq (member l' ''value'') l' rest']" by simp_all
    from Cons.prems show "\<forall>x \<in> set rest'. \<not> nullish x" by simp
    from Cons.prems ds show "length ds' = length rest'" by simp
  qed
  from st dr ds have "run (map (\<lambda>d. Loaded 0 (Some d)) (d # ds)) s
                      = run (map (\<lambda>d. Loaded 0 (Some d)) (d' # ds')) ?s2"
    by simp
  with ih ds show ?case by simp
qed

lemma timer_item_layers:
  "map timer_item (map2 (layer_timer c) ls ds)
   = map2 (\<lambda>l d. JImg (member l ''value'') (fst d) (snd d)) ls ds"
  by (simp add: layer_timer_def split_def)

lemma timer_ok_layers:
  assumes "\<forall>l \<in> set ls. \<not> nullish l \<and> \<not> nullish (member l ''props'')"
  shows "\<forall>t \<in> set (map2 (layer_timer c) ls ds). timer_ok t"
  using assms by (auto simp: layer_timer_def dest: set_zip_leftD)

section \<open>The claims\<close>

lemma promise_each_never_empty: "promise_each arr \<noteq> EachEmpty"
  by (auto simp: promise_each_def split: jsval.splits)

lemma enableDownload_empty:
  "obj_get (config s) ''download'' = JStr '''' \<Longrightarrow>
   enableDownload env s = (Inl (ConfigKeyError ''download''), s)"
  by (simp add: enableDownload_def getConfig_def)

lemma instance_config:
  "config (instance_with t) =
     [(''align'', JStr ''left''), (''background'', JUndefined), (''canvas'', JCanvas 0),
      (''color'', JStr ''black''), (''download'', JStr ''''), (''el'', JStr ''#cardmaker''),
      (''width'', JNum 400), (''height'', JNum 250), (''template'', t)]"
  by (simp add: instance_with_def putCanvas_def makeCanvas_def makeElement_def setConfig_def
      getConfig_def Let_def default_config_def blank_def obj_set_def obj_get_def sample_env_def)

lemma instance_queues:
  "micro (instance_with t) = [] \<and> loads (instance_with t) = [] \<and> timers (instance_with t) = []
   \<and> calls (instance_with t) = [] \<and> settled (instance_with t) = []"
  by (simp add: instance_with_def putCanvas_def makeCanvas_def makeElement_def setConfig_def
      getConfig_def Let_def default_config_def blank_def obj_set_def obj_get_def sample_env_def)

text \<open>
  C1. For the template \<^verbatim>\<open>{background:'blue', images:[], text:[{value:'Hi', props:{x:10,y:20}}]}\<close>
  on a 400 by 250 surface, the claim has \<^verbatim>\<open>render\<close> fill the surface blue and draw "Hi" at
  (10, 20) in Arial, size 20, black: the empty image list must not stop the text. The code
  does otherwise. \<^verbatim>\<open>Promise.each\<close> rejects an empty array (its test \<^verbatim>\<open>!arr.length\<close> comes before
  its "empty case", which is dead code, see \<open>promise_each_never_empty\<close>), so the promise of
  \<^verbatim>\<open>render\<close> is rejected, \<^verbatim>\<open>renderText\<close> is never called, and whatever the browser does
  afterwards the surface holds the blue fill and nothing else.
\<close>

theorem render_scenario_text_never_drawn:
  assumes col: "isColor env (JStr ''blue'')"
    and cfg: "obj_get (config s) ''template'' = scenario_template"
      "obj_get (config s) ''background'' = JUndefined"
      "obj_get (config s) ''canvas'' = JCanvas c"
      "obj_get (config s) ''width'' = JNum 400"
      "obj_get (config s) ''height'' = JNum 250"
    and q: "micro s = []" "loads s = []" "timers s = []"
  shows "fst (render env s) = Inr ()
       \<and> calls (run evs (drain (snd (render env s))))
           = calls s @ [(c, BeginPath), (c, SetFillStyle (JStr ''blue'')),
                        (c, Rect (JNum 0) (JNum 0) (JNum 400) (JNum 250)), (c, Fill),
                        (c, ClosePath)]
       \<and> settled (run evs (drain (snd (render env s)))) = settled s @ [Inl NonArrayError]"
proof -
  let ?s1 = "s\<lparr>config := obj_set (config s) ''background'' (JStr ''blue'')\<rparr>"
  have 1: "render_step1 s = (Inr (), ?s1)"
    using cfg
    by (simp add: render_step1_def Let_def obj_get_set obj_get_Nil get_prop_def
        scenario_template_def snd_setConfig_one) (simp add: obj_get_def)
  let ?cs = "[(c, BeginPath), (c, SetFillStyle (JStr ''blue'')),
              (c, Rect (JNum 0) (JNum 0) (JNum 400) (JNum 250)), (c, Fill), (c, ClosePath)]"
  let ?s2 = "?s1\<lparr>calls := calls s @ ?cs\<rparr>"
  have gc: "getContext ?s1 = Inr (Some c)"
    using cfg by (simp add: getContext_def getConfig_def obj_get_set)
  have cb: "changeBackground (JStr ''color'') (JObj [(''color'', JStr ''blue'')]) ?s1 = (Inr c, ?s2)"
    using cfg gc
    by (simp add: changeBackground_def Let_def obj_get_set obj_get_Nil get_prop_def log_call_def)
       (simp add: obj_get_def)
  have 2: "renderBackground env ?s1 = (Inr (), ?s2)"
    using col cb by (simp add: renderBackground_def getConfig_def obj_get_set)
  have 3: "renderImage ?s2 = (Inr (Some NonArrayError), ?s2)"
    using cfg
    by (simp add: renderImage_def getConfig_def obj_get_set scenario_template_def get_prop_def
        promise_each_def) (simp add: obj_get_def)
  let ?s3 = "?s2\<lparr>micro := [MReject NonArrayError]\<rparr>"
  from 1 2 3 q have r: "render env s = (Inr (), ?s3)" by (simp add: render_def)
  let ?s4 = "?s2\<lparr>micro := [], settled := settled s @ [Inl NonArrayError]\<rparr>"
  have d: "drain ?s3 = ?s4"
    by (simp add: drain.simps [of ?s3] drain.simps [of ?s4] reject_def)
  have "run evs ?s4 = ?s4" using q by (simp add: run_idle)
  with r d show ?thesis by simp
qed

theorem render_scenario_text_never_drawn_witness:
  "isColor sample_env (JStr ''blue'')
   \<and> obj_get (config (instance_with scenario_template)) ''template'' = scenario_template
   \<and> obj_get (config (instance_with scenario_template)) ''canvas'' = JCanvas 0
   \<and> fst (render sample_env (instance_with scenario_template)) = Inr ()
   \<and> calls (run [Tick, Tick] (drain (snd (render sample_env (instance_with scenario_template)))))
       = [(0, BeginPath), (0, SetFillStyle (JStr ''blue'')),
          (0, Rect (JNum 0) (JNum 0) (JNum 400) (JNum 250)), (0, Fill), (0, ClosePath)]
   \<and> settled (run [Tick, Tick] (drain (snd (render sample_env (instance_with scenario_template)))))
       = [Inl NonArrayError]"
proof -
  let ?s = "instance_with scenario_template"
  have col: "isColor sample_env (JStr ''blue'')" by (simp add: sample_env_def)
  have cfg: "obj_get (config ?s) ''template'' = scenario_template"
    "obj_get (config ?s) ''background'' = JUndefined"
    "obj_get (config ?s) ''canvas'' = JCanvas 0"
    "obj_get (config ?s) ''width'' = JNum 400"
    "obj_get (config ?s) ''height'' = JNum 250"
    by (simp_all add: instance_config obj_get_def)
  have q: "micro ?s = []" "loads ?s = []" "timers ?s = []" "calls ?s = []" "settled ?s = []"
    by (simp_all add: instance_queues)
  from render_scenario_text_never_drawn [OF col cfg q(1,2,3), of "[Tick, Tick]"] col cfg q
  show ?thesis by simp
qed

text \<open>
  C2. The claim: for every valid template the text is drawn after all the imagery; the
  text draws are scheduled only once the combined background and image phase has settled,
  and each layer is drawn before any text. The code keeps the order of layers and text
  (\<open>render_text_after_images\<close> below) but does not wait for the background:
  \<^verbatim>\<open>render\<close> passes \<^verbatim>\<open>[this.renderBackground(), this.renderImage()]\<close> to \<^verbatim>\<open>Promise.all\<close>, and
  \<^verbatim>\<open>renderBackground\<close> returns nothing, not the promise of its image load. At the card
  whose background is the image \<^verbatim>\<open>bg.png\<close>, once the layer has loaded and the timers have
  fired, the promise of \<^verbatim>\<open>render\<close> is fulfilled and "Hi" is drawn while the background is
  still loading; when that load ends, the background is painted over the layer and the
  text.
\<close>

theorem render_text_before_background:
  "loads (run layer_first_schedule
            (drain (snd (render sample_env (instance_with url_background_template)))))
     = [BgReq (JStr ''bg.png'')]
   \<and> settled (run layer_first_schedule
                 (drain (snd (render sample_env (instance_with url_background_template)))))
     = [Inr ()]
   \<and> map snd (calls (run layer_first_schedule
                 (drain (snd (render sample_env (instance_with url_background_template))))))
     = [DrawImage9 (JImg (JStr ''a.png'') 64 32) (JNum 0) (JNum 0) (JNum 64) (JNum 32)
                   (JNum 0) (JNum 0) (JNum 64) (JNum 32),
        SetFillStyle (JStr ''black''), SetTextAlign (JStr ''left''),
        SetFont (JNum 20) (JStr ''Arial''), FillText (JStr ''Hi'') (JNum 10) (JNum 20)]
   \<and> map snd (calls (run (layer_first_schedule @ [Loaded 0 (Some (800, 600))])
                 (drain (snd (render sample_env (instance_with url_background_template))))))
     = [DrawImage9 (JImg (JStr ''a.png'') 64 32) (JNum 0) (JNum 0) (JNum 64) (JNum 32)
                   (JNum 0) (JNum 0) (JNum 64) (JNum 32),
        SetFillStyle (JStr ''black''), SetTextAlign (JStr ''left''),
        SetFont (JNum 20) (JStr ''Arial''), FillText (JStr ''Hi'') (JNum 10) (JNum 20),
        BeginPath,
        DrawImage5 (JImg (JStr ''bg.png'') 800 600) (JNum 0) (JNum 0) (JNum 400) (JNum 250),
        ClosePath]"
  by code_simp

text \<open>
  The order the code does keep, between the layers and the text. For \<^verbatim>\<open>render\<close> called on an
  instance with nothing pending, whatever the browser does afterwards (\<open>evs\<close>: loads ending
  in any order, with success or failure, and timers firing), about the calls made since
  \<^verbatim>\<open>render\<close> was called: no layer is drawn after a text; while the layer chain is unsettled
  no text timer is set and no text is drawn; and once a text has been drawn no layer draw
  is left waiting. Nothing is said of the background.
\<close>

theorem render_text_after_images:
  assumes "micro s = []" and "loads s = []" and "timers s = []"
  shows "let s' = run evs (drain (snd (render env s)));
             new = map snd (drop (length (calls s)) (calls s'))
         in images_before_text new
            \<and> (layer_chain_pending s' \<longrightarrow>
                  (\<forall>t \<in> set (timers s'). \<not> is_text_timer t) \<and> (\<forall>c \<in> set new. \<not> is_text_draw c))
            \<and> ((\<exists>c \<in> set new. is_text_draw c) \<longrightarrow> (\<forall>t \<in> set (timers s'). is_text_timer t))"
proof -
  let ?n = "length (calls s)"
  let ?s' = "run evs (drain (snd (render env s)))"
  let ?new = "drop ?n (calls ?s')"
  from assms have "ordered ?n (snd (render env s))" by (rule ordered_render)
  then have "ordered ?n (drain (snd (render env s)))" by (rule ordered_drain)
  then have o: "ordered ?n ?s'" by (rule ordered_run)
  then have so: "sorted (ranks ?new @ timer_ranks (timers ?s'))"
    and pc: "phase_count ?s' \<le> 1"
    and no1: "phase_count ?s' = 1 \<longrightarrow> 1 \<notin> set (ranks ?new @ timer_ranks (timers ?s'))"
    by (simp_all add: ordered_def timeline_def)
  from so have "sorted (ranks ?new)" by (simp add: sorted_append)
  then have a: "images_before_text (map snd ?new)"
    by (rule ranks_sorted_images_before_text)
  have tdr: "1 \<in> set (ranks cs)" if "c \<in> set cs" "is_text_draw (snd c)" for c cs
    using that by (cases "snd c") (force simp: ranks_def call_rank_def)+
  have tm: "1 \<in> set (timer_ranks ts)" if "t \<in> set ts" "is_text_timer t" for t ts
    using that by (force simp: timer_ranks_def)
  have b: "(\<forall>t \<in> set (timers ?s'). \<not> is_text_timer t)
           \<and> (\<forall>c \<in> set (map snd ?new). \<not> is_text_draw c)"
    if "layer_chain_pending ?s'"
  proof -
    from that pc have "phase_count ?s' = 1" by (simp add: phase_count_pending)
    with no1 have "1 \<notin> set (ranks ?new)" "1 \<notin> set (timer_ranks (timers ?s'))" by simp_all
    with tdr [of _ ?new] tm [of _ "timers ?s'"] show ?thesis by auto
  qed
  have c: "\<forall>t \<in> set (timers ?s'). is_text_timer t"
    if "\<exists>c \<in> set (map snd ?new). is_text_draw c"
  proof
    fix t assume t: "t \<in> set (timers ?s')"
    from that tdr [of _ ?new] have "1 \<in> set (ranks ?new)" by auto
    with so have "\<forall>y \<in> set (timer_ranks (timers ?s')). 1 \<le> y"
      by (auto simp: sorted_append)
    with t show "is_text_timer t" by (auto simp: timer_ranks_def split: if_splits)
  qed
  from a b c show ?thesis by (simp add: Let_def)
qed

text \<open>
  At the card with two layers and two texts, with both loads succeeding: the two layers
  are drawn in list order, then the two texts.
\<close>

theorem render_text_after_images_witness:
  "micro (instance_with layered_template) = []
   \<and> loads (instance_with layered_template) = []
   \<and> timers (instance_with layered_template) = []
   \<and> map snd (calls (run layered_schedule
                      (drain (snd (render sample_env (instance_with layered_template))))))
     = [BeginPath, SetFillStyle (JStr ''blue''), Rect (JNum 0) (JNum 0) (JNum 400) (JNum 250),
        Fill, ClosePath,
        DrawImage9 (JImg (JStr ''a.png'') 64 32) (JNum 0) (JNum 0) (JNum 64) (JNum 32)
                   (JNum 5) (JNum 0) (JNum 64) (JNum 32),
        DrawImage9 (JImg (JStr ''b.png'') 10 10) (JNum 0) (JNum 0) (JNum 10) (JNum 10)
                   (JNum 0) (JNum 0) (JNum 10) (JNum 10),
        SetFillStyle (JStr ''black''), SetTextAlign (JStr ''left''),
        SetFont (JNum 20) (JStr ''Arial''), FillText (JStr ''Hi'') (JNum 10) (JNum 20),
        SetFillStyle (JStr ''black''), SetTextAlign (JStr ''left''),
        SetFont (JNum 20) (JStr ''Arial''), FillText (JStr ''there'') (JNum 0) (JNum 0)]
   \<and> images_before_text
        (map snd (drop (length (calls (instance_with layered_template)))
                    (calls (run layered_schedule
                              (drain (snd (render sample_env (instance_with layered_template))))))))"
proof -
  let ?s = "instance_with layered_template"
  have q: "micro ?s = []" "loads ?s = []" "timers ?s = []"
    by (simp_all add: instance_queues)
  have tr: "map snd (calls (run layered_schedule (drain (snd (render sample_env ?s)))))
     = [BeginPath, SetFillStyle (JStr ''blue''), Rect (JNum 0) (JNum 0) (JNum 400) (JNum 250),
        Fill, ClosePath,
        DrawImage9 (JImg (JStr ''a.png'') 64 32) (JNum 0) (JNum 0) (JNum 64) (JNum 32)
                   (JNum 5) (JNum 0) (JNum 64) (JNum 32),
        DrawImage9 (JImg (JStr ''b.png'') 10 10) (JNum 0) (JNum 0) (JNum 10) (JNum 10)
                   (JNum 0) (JNum 0) (JNum 10) (JNum 10),
        SetFillStyle (JStr ''black''), SetTextAlign (JStr ''left''),
        SetFont (JNum 20) (JStr ''Arial''), FillText (JStr ''Hi'') (JNum 10) (JNum 20),
        SetFillStyle (JStr ''black''), SetTextAlign (JStr ''left''),
        SetFont (JNum 20) (JStr ''Arial''), FillText (JStr ''there'') (JNum 0) (JNum 0)]"
    by code_simp
  from render_text_after_images [OF q, of layered_schedule sample_env]
  have "images_before_text
          (map snd (drop (length (calls ?s))
                      (calls (run layered_schedule (drain (snd (render sample_env ?s)))))))"
    by (simp add: Let_def)
  with q tr show ?thesis by (intro conjI)
qed

text \<open>
  C3. The claim: \<^verbatim>\<open>enableDownload\<close> raises the trigger-not-found error exactly when the
  download target is non-empty and resolves to no element, and with the target left at its
  empty default it does nothing and raises nothing. The second half fails on the code:
  \<^verbatim>\<open>getConfig('download')\<close> throws on the empty string before the test
  \<^verbatim>\<open>download.length > 0\<close> ("Means defined") is reached. For a non-empty selector the code
  does what the claim says.
\<close>

theorem enableDownload_unset_throws:
  "(obj_get (config s) ''download'' = JStr '''' \<longrightarrow>
      enableDownload env s = (Inl (ConfigKeyError ''download''), s))
   \<and> (d \<noteq> [] \<longrightarrow> obj_get (config s) ''download'' = JStr d \<longrightarrow>
        (fst (enableDownload env s) = Inl (TriggerNotFoundError (JStr d))
           \<longleftrightarrow> querySelector env (JStr d) = None)
        \<and> (\<forall>b. querySelector env (JStr d) = Some b \<longrightarrow>
              enableDownload env s = (Inr (), s\<lparr>listeners := listeners s @ [b]\<rparr>)))"
  by (simp add: enableDownload_def getConfig_def get_prop_def split: option.splits)

theorem enableDownload_unset_throws_witness:
  "obj_get (config (instance_with scenario_template)) ''download'' = JStr ''''
   \<and> enableDownload sample_env (instance_with scenario_template)
       = (Inl (ConfigKeyError ''download''), instance_with scenario_template)"
proof -
  have "obj_get (config (instance_with scenario_template)) ''download'' = JStr ''''"
    by (simp add: instance_config obj_get_def)
  with enableDownload_unset_throws [of "instance_with scenario_template" sample_env "''x''"]
  show ?thesis by simp
qed

text \<open>
  C4. Whenever the \<^verbatim>\<open>download\<close> option is left at its default, the empty string (not given,
  or given as \<^verbatim>\<open>''\<close>), \<^verbatim>\<open>new CardMaker(config)\<close> throws: if \<^verbatim>\<open>putCanvas\<close> and \<^verbatim>\<open>render\<close> return,
  the constructor calls \<^verbatim>\<open>enableDownload\<close>, whose \<^verbatim>\<open>getConfig('download')\<close> raises the
  configuration-key error. So a construction that succeeds was given a download target.
\<close>

theorem constructor_default_download_throws:
  assumes "\<forall>v. (''download'', v) \<in> set configs \<longrightarrow> v = JStr ''''"
  shows "(\<exists>e. fst (constructor env configs page) = Inl e)
       \<and> (\<forall>c s2 s3.
             putCanvas env (snd (setConfig (SetAll configs) (page\<lparr>config := default_config\<rparr>)))
               = (Inr c, s2) \<longrightarrow>
             render env s2 = (Inr (), s3) \<longrightarrow>
             constructor env configs page = (Inl (ConfigKeyError ''download''), s3))"
proof -
  let ?s1 = "snd (setConfig (SetAll configs) (page\<lparr>config := default_config\<rparr>))"
  have d0: "obj_get default_config ''download'' = JStr ''''"
    by (simp add: default_config_def obj_get_def)
  have d1: "obj_get (config ?s1) ''download'' = JStr ''''"
    using obj_get_assign_all_same [OF assms d0] by (simp add: snd_setConfig_all)
  have thrown: "enableDownload env s3 = (Inl (ConfigKeyError ''download''), s3)"
    if p: "putCanvas env ?s1 = (r2, s2)" and r: "render env s2 = (r3, s3)" for r2 s2 r3 s3
  proof -
    from config_putCanvas [of "''download''" env ?s1] p d1
    have d2: "obj_get (config s2) ''download'' = JStr ''''" by simp
    from config_render [of "''download''" env s2] r d2
    have "obj_get (config s3) ''download'' = JStr ''''" by simp
    then show ?thesis by (rule enableDownload_empty)
  qed
  obtain r2 s2 where p: "putCanvas env ?s1 = (r2, s2)" by (cases "putCanvas env ?s1")
  obtain r3 s3 where r: "render env s2 = (r3, s3)" by (cases "render env s2")
  from thrown [OF p r] p r have a: "\<exists>e. fst (constructor env configs page) = Inl e"
    by (cases r2; cases r3) (simp_all add: constructor_def Let_def)
  have b: "constructor env configs page = (Inl (ConfigKeyError ''download''), s3')"
    if "putCanvas env ?s1 = (Inr c, s2')" and "render env s2' = (Inr (), s3')" for c s2' s3'
    using thrown [OF that] that by (simp add: constructor_def Let_def)
  from a b show ?thesis by blast
qed

theorem constructor_default_download_throws_witness:
  "''download'' \<notin> fst ` set [(''template'', layered_template)]
   \<and> (\<exists>e. fst (constructor sample_env [(''template'', layered_template)] blank) = Inl e)
   \<and> fst (constructor sample_env [(''template'', layered_template)] blank)
       = Inl (ConfigKeyError ''download'')"
proof -
  have h: "\<forall>v. (''download'', v) \<in> set [(''template'', layered_template)] \<longrightarrow> v = JStr ''''"
    by simp
  have "fst (constructor sample_env [(''template'', layered_template)] blank)
        = Inl (ConfigKeyError ''download'')"
    by code_simp
  with constructor_default_download_throws [OF h, of sample_env blank] show ?thesis by simp
qed

text \<open>
  C5. The claim: the first step of \<^verbatim>\<open>render\<close> copies the template's background into the
  configuration when the configuration has none, leaves it alone otherwise, and never
  fails, also when the template has no \<^verbatim>\<open>background\<close> field. On the code the last part
  fails: with no background in the configuration, the step reads
  \<^verbatim>\<open>config['template']['background'].length\<close>, and a template with no such field makes that
  a property read on \<^verbatim>\<open>undefined\<close>. \<^verbatim>\<open>render\<close> throws there and nothing is drawn; the default
  template \<^verbatim>\<open>{}\<close> is such a template.
\<close>

theorem render_step1_missing_background_throws:
  assumes "\<not> truthy (obj_get (config s) ''background'')"
    and "obj_get (config s) ''template'' = JObj t"
    and "map_of t ''background'' = None"
  shows "render_step1 s = (Inl TypeError, s) \<and> render env s = (Inl TypeError, s)"
proof -
  from assms(3) have "obj_get t ''background'' = JUndefined"
    by (simp add: obj_get_def)
  with assms(1,2) have "render_step1 s = (Inl TypeError, s)"
    by (simp add: render_step1_def Let_def obj_get_set obj_get_Nil get_prop_def)
  then show ?thesis by (simp add: render_def)
qed

theorem render_step1_missing_background_throws_witness:
  "\<not> truthy (obj_get (config (instance_with (JObj []))) ''background'')
   \<and> obj_get (config (instance_with (JObj []))) ''template'' = JObj []
   \<and> map_of ([] :: obj) ''background'' = None
   \<and> render_step1 (instance_with (JObj [])) = (Inl TypeError, instance_with (JObj []))
   \<and> render sample_env (instance_with (JObj [])) = (Inl TypeError, instance_with (JObj []))"
proof -
  have h: "\<not> truthy (obj_get (config (instance_with (JObj []))) ''background'')"
    "obj_get (config (instance_with (JObj []))) ''template'' = JObj []"
    "map_of ([] :: obj) ''background'' = None"
    by (simp_all add: instance_config obj_get_def)
  from render_step1_missing_background_throws [OF h, of sample_env] h show ?thesis
    by (intro conjI) simp_all
qed

text \<open>What the step does when it does not fail: the copy is made exactly when the
  configuration's background is falsy and the template's has a positive length.\<close>

lemma render_step1_copies:
  assumes "obj_get (config s) ''template'' = JObj t" and "obj_get t ''background'' = JStr b"
  shows "render_step1 s =
           (Inr (), if \<not> truthy (obj_get (config s) ''background'') \<and> b \<noteq> []
                    then s\<lparr>config := obj_set (config s) ''background'' (JStr b)\<rparr> else s)"
  using assms
  by (simp add: render_step1_def Let_def obj_get_set obj_get_Nil get_prop_def snd_setConfig_one)




text \<open>
  C7, as the code has it. For a non-empty key other than \<^verbatim>\<open>__proto__\<close> (assigning to that one
  calls the prototype setter and stores nothing) and a value that is not loosely equal to
  the empty string, \<^verbatim>\<open>getConfig(key)\<close> after \<^verbatim>\<open>setConfig(key, value)\<close> returns the value;
  \<^verbatim>\<open>setConfig\<close> itself returns the object \<^verbatim>\<open>{key: value}\<close>; a later set overwrites an earlier
  one; and a batch \<^verbatim>\<open>setConfig(object)\<close> stores each entry and returns its stored value.
\<close>

theorem setConfig_getConfig_roundtrip:
  assumes "k \<noteq> []" and "k \<noteq> ''__proto__''" and "\<not> loose_eq_empty v"
  shows "getConfig (Key k) (snd (setConfig (SetOne k v) s)) = Inr v
       \<and> fst (setConfig (SetOne k v) s) = Inr (JObj [(k, v)])
       \<and> getConfig (Key k) (snd (setConfig (SetOne k v) (snd (setConfig (SetOne k u) s)))) = Inr v
       \<and> (distinct (map fst es) \<longrightarrow> (k, v) \<in> set es \<longrightarrow>
            getConfig (Key k) (snd (setConfig (SetAll es) s)) = Inr v
            \<and> (\<exists>r. fst (setConfig (SetAll es) s) = Inr (JObj r) \<and> obj_get r k = v))"
proof -
  have one: "getConfig (Key k) (snd (setConfig (SetOne k v) s')) = Inr v" for s'
    using assms by (simp add: getConfig_def snd_setConfig_one obj_get_set)
  have ret: "fst (setConfig (SetOne k v) s) = Inr (JObj [(k, v)])"
    by (rule fst_setConfig_one)
  have batch: "getConfig (Key k) (snd (setConfig (SetAll es) s)) = Inr v
            \<and> (\<exists>r. fst (setConfig (SetAll es) s) = Inr (JObj r) \<and> obj_get r k = v)"
    if d: "distinct (map fst es)" and m: "(k, v) \<in> set es"
  proof -
    from d m have g: "obj_get (assign_all (config s) es) k = v"
      by (rule obj_get_assign_all_distinct)
    from m have "k \<in> fst ` set es" by force
    with g assms show ?thesis
      by (simp add: getConfig_def snd_setConfig_all fst_setConfig_all obj_get_pick)
  qed
  from one ret batch show ?thesis by blast
qed

theorem setConfig_getConfig_roundtrip_witness:
  "''color'' \<noteq> [] \<and> ''color'' \<noteq> ''__proto__'' \<and> \<not> loose_eq_empty (JStr ''red'')
   \<and> getConfig (Key ''color'')
        (snd (setConfig (SetOne ''color'' (JStr ''red'')) (instance_with scenario_template)))
      = Inr (JStr ''red'')
   \<and> fst (setConfig (SetOne ''color'' (JStr ''red'')) (instance_with scenario_template))
      = Inr (JObj [(''color'', JStr ''red'')])
   \<and> getConfig (Key ''color'')
        (snd (setConfig (SetOne ''color'' (JStr ''red''))
               (snd (setConfig (SetOne ''color'' (JStr ''green''))
                      (instance_with scenario_template)))))
      = Inr (JStr ''red'')
   \<and> distinct (map fst [(''align'', JStr ''center''), (''color'', JStr ''red'')])
   \<and> getConfig (Key ''color'')
        (snd (setConfig (SetAll [(''align'', JStr ''center''), (''color'', JStr ''red'')])
               (instance_with scenario_template)))
      = Inr (JStr ''red'')"
  using setConfig_getConfig_roundtrip
          [of "''color''" "JStr ''red''" "instance_with scenario_template" "JStr ''green''"
              "[(''align'', JStr ''center''), (''color'', JStr ''red'')]"]
  by simp

text \<open>The claim as it is written fails for the value \<^verbatim>\<open>''\<close>: after
  \<^verbatim>\<open>setConfig('color', '')\<close>, \<^verbatim>\<open>getConfig('color')\<close> raises the error instead of returning
  the value.\<close>

theorem roundtrip_empty_counterexample:
  "getConfig (Key ''color'')
     (snd (setConfig (SetOne ''color'' (JStr '''')) (instance_with scenario_template)))
   = Inl (ConfigKeyError ''color'')"
  by (simp add: snd_setConfig_one obj_get_set getConfig_def)

text \<open>
  C8. On an instance whose configuration holds a canvas, \<^verbatim>\<open>makeCanvas\<close> fails with the
  duplicate-surface error and changes nothing; after a call that succeeded the next one
  fails so; and a second call in a row fails whatever the first did.
\<close>

theorem makeCanvas_duplicate:
  "(obj_get (config s) ''canvas'' = JCanvas c \<longrightarrow>
      makeCanvas props s = (Inl DuplicateSurfaceError, s))
   \<and> (\<forall>v s1. makeCanvas props s = (Inr v, s1) \<longrightarrow>
         makeCanvas props' s1 = (Inl DuplicateSurfaceError, s1))
   \<and> (\<exists>e. fst (makeCanvas props' (snd (makeCanvas props s))) = Inl e)"
proof -
  have a: "makeCanvas p s' = (Inl DuplicateSurfaceError, s')"
    if "obj_get (config s') ''canvas'' = JCanvas c'" for p s' c'
    using that by (simp add: makeCanvas_def getConfig_def)
  have b: "\<exists>c'. obj_get (config s1) ''canvas'' = JCanvas c'"
    if "makeCanvas props s = (Inr v, s1)" for v s1
    using that
    by (auto simp: makeCanvas_def makeElement_def setConfig_def Let_def obj_get_set
        split: sum.splits if_splits)
  have c: "\<exists>e. fst (makeCanvas props' (snd (makeCanvas props s))) = Inl e"
  proof (cases "makeCanvas props s")
    case (Pair r s1)
    show ?thesis
    proof (cases r)
      case (Inl e)
      with Pair have "s1 = s"
        by (auto simp: makeCanvas_def split: sum.splits if_splits prod.splits)
      moreover from Pair Inl have "\<exists>e'. fst (makeCanvas props' s) = Inl e'"
        by (auto simp: makeCanvas_def split: sum.splits if_splits prod.splits)
      ultimately show ?thesis using Pair by simp
    next
      case (Inr v)
      with Pair b a show ?thesis by fastforce
    qed
  qed
  from a b c show ?thesis by blast
qed

theorem makeCanvas_duplicate_witness:
  "obj_get (config (instance_with scenario_template)) ''canvas'' = JCanvas 0
   \<and> makeCanvas (JObj []) (instance_with scenario_template)
       = (Inl DuplicateSurfaceError, instance_with scenario_template)
   \<and> fst (makeCanvas (JObj []) (blank\<lparr>config := default_config\<rparr>)) = Inr (JCanvas 0)
   \<and> fst (makeCanvas (JObj []) (snd (makeCanvas (JObj []) (blank\<lparr>config := default_config\<rparr>))))
       = Inl DuplicateSurfaceError"
proof -
  have h: "obj_get (config (instance_with scenario_template)) ''canvas'' = JCanvas 0"
    by (simp add: instance_config obj_get_def)
  have f: "fst (makeCanvas (JObj []) (blank\<lparr>config := default_config\<rparr>)) = Inr (JCanvas 0)"
    by code_simp
  obtain s1 where m: "makeCanvas (JObj []) (blank\<lparr>config := default_config\<rparr>) = (Inr (JCanvas 0), s1)"
    using f by (cases "makeCanvas (JObj []) (blank\<lparr>config := default_config\<rparr>)") simp
  from makeCanvas_duplicate [of "instance_with scenario_template" 0 "JObj []" "JObj []"] h
  have 1: "makeCanvas (JObj []) (instance_with scenario_template)
           = (Inl DuplicateSurfaceError, instance_with scenario_template)"
    by simp
  from makeCanvas_duplicate [of "blank\<lparr>config := default_config\<rparr>" 0 "JObj []" "JObj []"] m
  have 2: "fst (makeCanvas (JObj []) (snd (makeCanvas (JObj []) (blank\<lparr>config := default_config\<rparr>))))
           = Inl DuplicateSurfaceError"
    by simp
  from h 1 f 2 show ?thesis by (intro conjI)
qed

text \<open>
  C9. \<^verbatim>\<open>getImage(format, quality)\<close> fails when the configuration holds no canvas (the
  failure is the runtime's error for calling \<^verbatim>\<open>toDataURL\<close> on \<^verbatim>\<open>undefined\<close>); otherwise it
  returns the payload that \<^verbatim>\<open>toDataURL\<close> encodes from the canvas for the format and
  quality, which default to \<^verbatim>\<open>jpeg\<close> and 1.0.
\<close>

theorem getImage_payload:
  "(nullish (obj_get (config s) ''canvas'') \<longrightarrow> getImage format quality s = Inl TypeError)
   \<and> (obj_get (config s) ''canvas'' = JCanvas c \<longrightarrow>
        getImage format quality s
          = Inr (DataURL c (default_arg format (JStr ''jpeg'')) (default_arg quality (JNum 1))
                   (drawn c s))
        \<and> getImage JUndefined JUndefined s = Inr (DataURL c (JStr ''jpeg'') (JNum 1) (drawn c s)))"
  by (cases "obj_get (config s) ''canvas''")
     (simp_all add: getImage_def getConfig_def default_arg_def)

theorem getImage_payload_witness:
  "nullish (obj_get (config (blank\<lparr>config := default_config\<rparr>)) ''canvas'')
   \<and> getImage (JStr ''png'') (JNum 1) (blank\<lparr>config := default_config\<rparr>) = Inl TypeError
   \<and> obj_get (config (instance_with scenario_template)) ''canvas'' = JCanvas 0
   \<and> getImage (JStr ''png'') (JNum 1) (instance_with scenario_template)
       = Inr (DataURL 0 (JStr ''png'') (JNum 1) [])
   \<and> getImage JUndefined JUndefined (instance_with scenario_template)
       = Inr (DataURL 0 (JStr ''jpeg'') (JNum 1) [])"
proof -
  have n: "nullish (obj_get (config (blank\<lparr>config := default_config\<rparr>)) ''canvas'')"
    by (simp add: default_config_def obj_get_def)
  have h: "obj_get (config (instance_with scenario_template)) ''canvas'' = JCanvas 0"
    by (simp add: instance_config obj_get_def)
  have d: "drawn 0 (instance_with scenario_template) = []"
    by (simp add: drawn_def instance_queues)
  from getImage_payload [of "blank\<lparr>config := default_config\<rparr>" "JStr ''png''" "JNum 1" 0]
    getImage_payload [of "instance_with scenario_template" "JStr ''png''" "JNum 1" 0] n h d
  show ?thesis by (simp add: default_arg_def)
qed

text \<open>
  C10, as the code has it. When a layer's image has loaded and its timer fires, the one
  call made on the canvas is the nine-argument \<^verbatim>\<open>drawImage\<close> of the loaded image, from the
  source rectangle \<^verbatim>\<open>(sx, sy, swidth, sheight)\<close> to the destination rectangle
  \<^verbatim>\<open>(x, y, width, height)\<close>, where each field that is missing or falsy (0 included) takes
  its default: 0 for the four origins, the image's natural width and height for the four
  sizes. Stated for a layer whose \<^verbatim>\<open>props\<close> is an object, on an instance with a canvas and no
  timer waiting; the layer's load is the \<open>i\<close>-th outstanding one.
\<close>

theorem layer_draw_rectangles:
  assumes cv: "obj_get (config s) ''canvas'' = JCanvas c"
    and q: "micro s = []" "timers s = []"
    and i: "i < length (loads s)" "loads s ! i = LayerReq src layer rest"
    and p: "member layer ''props'' = JObj props"
  shows "calls (step Tick (step (Loaded i (Some (w, h))) s))
         = calls s @
           [(c, DrawImage9 (JImg src w h)
                  (field_or props ''sx'' (JNum 0))
                  (field_or props ''sy'' (JNum 0))
                  (field_or props ''swidth'' (JNum (real w)))
                  (field_or props ''sheight'' (JNum (real h)))
                  (field_or props ''x'' (JNum 0))
                  (field_or props ''y'' (JNum 0))
                  (field_or props ''width'' (JNum (real w)))
                  (field_or props ''height'' (JNum (real h))))]"
proof -
  let ?img = "JImg src w h"
  let ?s0 = "s\<lparr>loads := take i (loads s) @ drop (Suc i) (loads s)\<rparr>"
  let ?s1 = "?s0\<lparr>timers := timers ?s0 @ [DrawTimer (Some c) ?img (JObj props)],
                  micro := micro ?s0 @ [MEach rest]\<rparr>"
  from cv have gc: "getContext ?s0 = Inr (Some c)"
    by (simp add: getContext_def getConfig_def)
  with i p have ol: "on_load (loads s ! i) (Some (w, h)) ?s0 = ?s1"
    by (simp add: on_load_def)
  let ?s2 = "drain ?s1"
  from i ol have st: "step (Loaded i (Some (w, h))) s = ?s2" by (simp add: step_def)
  from drain_effect [of ?s1] q obtain ts where
    d: "calls ?s2 = calls s" "timers ?s2 = DrawTimer (Some c) ?img (JObj props) # ts"
    by auto
  have fo: "js_or (obj_get props k) d = field_or props k d" for k d
    by (simp add: js_or_def field_or_def obj_get_def split: option.splits)
  let ?call = "DrawImage9 ?img
                  (field_or props ''sx'' (JNum 0))
                  (field_or props ''sy'' (JNum 0))
                  (field_or props ''swidth'' (JNum (real w)))
                  (field_or props ''sheight'' (JNum (real h)))
                  (field_or props ''x'' (JNum 0))
                  (field_or props ''y'' (JNum 0))
                  (field_or props ''width'' (JNum (real w)))
                  (field_or props ''height'' (JNum (real h)))"
  have f: "fire (DrawTimer (Some c) ?img (JObj props)) (?s2\<lparr>timers := ts\<rparr>)
           = log_call c ?call (?s2\<lparr>timers := ts\<rparr>)"
    by (simp add: fire_def fo)
  from d have "step Tick ?s2
               = drain (fire (DrawTimer (Some c) ?img (JObj props)) (?s2\<lparr>timers := ts\<rparr>))"
    by (simp add: step_def)
  with f have "calls (step Tick ?s2) = calls (log_call c ?call (?s2\<lparr>timers := ts\<rparr>))"
    using drain_effect [of "log_call c ?call (?s2\<lparr>timers := ts\<rparr>)"] by simp
  with d st show ?thesis by (simp add: log_call_def)
qed

text \<open>The first layer of the two-layer card, \<^verbatim>\<open>{value: 'a.png', props: {x: 5, swidth: 0}}\<close>,
  once the card has been rendered and the microtasks have run.\<close>

theorem layer_draw_rectangles_witness:
  "obj_get (config (drain (snd (render sample_env (instance_with layered_template))))) ''canvas''
     = JCanvas 0
   \<and> micro (drain (snd (render sample_env (instance_with layered_template)))) = []
   \<and> timers (drain (snd (render sample_env (instance_with layered_template)))) = []
   \<and> 0 < length (loads (drain (snd (render sample_env (instance_with layered_template)))))
   \<and> loads (drain (snd (render sample_env (instance_with layered_template)))) ! 0
       = LayerReq (JStr ''a.png'')
           (JObj [(''value'', JStr ''a.png''),
                  (''props'', JObj [(''x'', JNum 5), (''swidth'', JNum 0)])])
           [JObj [(''value'', JStr ''b.png''), (''props'', JObj [])]]
   \<and> calls (step Tick (step (Loaded 0 (Some (64, 32)))
              (drain (snd (render sample_env (instance_with layered_template))))))
       = calls (drain (snd (render sample_env (instance_with layered_template)))) @
         [(0, DrawImage9 (JImg (JStr ''a.png'') 64 32) (JNum 0) (JNum 0) (JNum 64) (JNum 32)
                (JNum 5) (JNum 0) (JNum 64) (JNum 32))]"
proof -
  let ?s = "drain (snd (render sample_env (instance_with layered_template)))"
  let ?layer = "JObj [(''value'', JStr ''a.png''),
                      (''props'', JObj [(''x'', JNum 5), (''swidth'', JNum 0)])]"
  have cv: "obj_get (config ?s) ''canvas'' = JCanvas 0" by code_simp
  have q: "micro ?s = []" "timers ?s = []" by code_simp+
  have i: "0 < length (loads ?s)"
    "loads ?s ! 0 = LayerReq (JStr ''a.png'') ?layer
                      [JObj [(''value'', JStr ''b.png''), (''props'', JObj [])]]"
    by code_simp+
  have p: "member ?layer ''props'' = JObj [(''x'', JNum 5), (''swidth'', JNum 0)]"
    by (simp add: obj_get_def)
  from layer_draw_rectangles [OF cv q i p, of 64 32]
  have "calls (step Tick (step (Loaded 0 (Some (64, 32))) ?s))
        = calls ?s @
          [(0, DrawImage9 (JImg (JStr ''a.png'') 64 32) (JNum 0) (JNum 0) (JNum 64) (JNum 32)
                 (JNum 5) (JNum 0) (JNum 64) (JNum 32))]"
    by (simp add: field_or_def)
  with cv q i show ?thesis by (intro conjI)
qed

text \<open>The claim as it is written fails for a field given as 0: the first layer of the
  two-layer card asks for a source width of 0, and the draw takes the natural width 64.\<close>

theorem layer_zero_width_counterexample:
  "member (JObj [(''x'', JNum 5), (''swidth'', JNum 0)]) ''swidth'' = JNum 0
   \<and> map snd (calls (step Tick (step (Loaded 0 (Some (64, 32)))
                (drain (snd (render sample_env (instance_with layered_template)))))))
     = [BeginPath, SetFillStyle (JStr ''blue''), Rect (JNum 0) (JNum 0) (JNum 400) (JNum 250),
        Fill, ClosePath,
        DrawImage9 (JImg (JStr ''a.png'') 64 32) (JNum 0) (JNum 0) (JNum 64) (JNum 32)
                   (JNum 5) (JNum 0) (JNum 64) (JNum 32)]"
  by code_simp

section \<open>Further properties\<close>

text \<open>
  \<^verbatim>\<open>render\<close> draws everything when nothing fails. On an instance with a canvas and a
  colour as background, for a template with at least one layer, where every layer has a
  \<^verbatim>\<open>props\<close> and no text item has \<^verbatim>\<open>null\<close> for \<^verbatim>\<open>props\<close>: once every load has succeeded
  (whatever the natural sizes \<open>dims\<close>) and every timer has fired, the layers have been
  drawn once each in list order, then the texts once each in list order; nothing is left
  pending and the promise of \<^verbatim>\<open>render\<close> is fulfilled.
\<close>

theorem render_draws_everything:
  assumes cv: "obj_get (config s) ''canvas'' = JCanvas c"
    and bg: "obj_get (config s) ''background'' = JStr b" "b \<noteq> []" "isColor env (JStr b)"
    and tp: "obj_get (config s) ''template'' = JObj t" "obj_get t ''images'' = JArr layers"
      "layers \<noteq> []" "obj_get t ''text'' = JArr items"
    and lo: "\<forall>l \<in> set layers. \<not> nullish l \<and> \<not> nullish (member l ''props'')"
    and io: "\<forall>i \<in> set items. \<not> nullish i \<and> member i ''props'' \<noteq> JNull"
    and q: "micro s = []" "loads s = []" "timers s = []"
    and ds: "length dims = length layers"
  shows "let s' = run (map (\<lambda>d. Loaded 0 (Some d)) dims
                        @ replicate (length layers + length items) Tick)
                    (drain (snd (render env s)))
         in drawn_items (drop (length (calls s)) (calls s'))
              = map2 (\<lambda>l d. JImg (member l ''value'') (fst d) (snd d)) layers dims
                @ map (\<lambda>i. member i ''value'') items
            \<and> timers s' = [] \<and> loads s' = [] \<and> settled s' = settled s @ [Inr ()]"
proof -
  from tp(3) obtain l rest where layers: "layers = l # rest" by (cases layers) auto
  with ds obtain d ds' where dims: "dims = d # ds'" by (cases dims) auto
  have gc: "getContext s = Inr (Some c)"
    using cv by (simp add: getContext_def getConfig_def)
  have 1: "render_step1 s = (Inr (), s)"
    using bg by (simp add: render_step1_def Let_def obj_get_set obj_get_Nil)
  obtain r2 s2 where cb: "changeBackground (JStr ''color'') (JObj [(''color'', JStr b)]) s = (r2, s2)"
    by (cases "changeBackground (JStr ''color'') (JObj [(''color'', JStr b)]) s")
  from gc cb have r2: "r2 = Inr c"
    by (auto simp: changeBackground_def Let_def get_prop_def obj_get_def)
  from gc cb obtain bcs where s2: "s2 = s\<lparr>calls := calls s @ bcs\<rparr>" "drawn_items bcs = []"
    by (auto simp: changeBackground_def Let_def get_prop_def obj_get_def log_call_def
        drawn_items_def)
  from bg cb r2 have 2: "renderBackground env s = (Inr (), s2)"
    by (simp add: renderBackground_def getConfig_def)
  have tpl: "getConfig (Key ''template'') s2 = Inr (JObj t)"
    using tp s2 by (simp add: getConfig_def)
  with tp layers have 3: "renderImage s2 = (Inr None, s2\<lparr>micro := micro s2 @ [MEach layers]\<rparr>)"
    by (simp add: renderImage_def get_prop_def promise_each_array)
  let ?s3 = "s2\<lparr>micro := [MEach layers]\<rparr>"
  from 1 2 3 q s2 have r: "render env s = (Inr (), ?s3)" by (simp add: render_def)
  let ?s4 = "s2\<lparr>micro := [], loads := [LayerReq (member l ''value'') l rest]\<rparr>"
  have "drain ?s3 = run_micro (MEach layers) (?s3\<lparr>micro := []\<rparr>)"
    by (rule drain_single) simp
  with layers lo q s2 have dr: "drain ?s3 = ?s4" by (simp add: get_prop_def)
  let ?ld = "map (\<lambda>d. Loaded 0 (Some d)) dims"
  let ?s5 = "run ?ld ?s4"
  let ?ts = "map2 (layer_timer c) layers dims @ map TextTimer items"
  have gc4: "getContext ?s4 = Inr (Some c)"
    using gc s2 by (simp add: getContext_queues)
  have l5: "timers ?s5 = timers ?s4 @ map2 (layer_timer c) (l # rest) (d # ds') @ map TextTimer items
         \<and> calls ?s5 = calls ?s4 \<and> config ?s5 = config ?s4 \<and> micro ?s5 = [] \<and> loads ?s5 = []
         \<and> settled ?s5 = settled ?s4 @ [Inr ()]"
    unfolding dims
  proof (rule run_loads [OF gc4])
    from tpl show "getConfig (Key ''template'') ?s4 = Inr (JObj t)"
      by (simp add: getConfig_queues)
    show "\<not> nullish (JObj t)" by simp
    from tp show "member (JObj t) ''text'' = JArr items" by simp
    show "micro ?s4 = []" "loads ?s4 = [LayerReq (member l ''value'') l rest]" by simp_all
    from lo layers show "\<forall>x \<in> set rest. \<not> nullish x" by simp
    from ds layers dims show "length ds' = length rest" by simp
  qed
  with q s2 layers dims have t5: "timers ?s5 = ?ts" and c5: "calls ?s5 = calls s @ bcs"
    and m5: "micro ?s5 = []" and ld5: "loads ?s5 = []"
    and st5: "settled ?s5 = settled s @ [Inr ()]" and cf5: "config ?s5 = config s"
    by simp_all
  from cf5 gc have gc5: "getContext ?s5 = Inr (Some c)"
    by (simp add: getContext_config [of ?s5 s])
  have ok: "\<forall>t \<in> set ?ts. timer_ok t"
    using timer_ok_layers [OF lo, of c dims] io by auto
  have len: "length ?ts = length layers + length items" using ds by simp
  let ?s6 = "run (replicate (length ?ts) Tick) ?s5"
  from run_ticks [OF ok gc5 m5 t5] obtain cs where
    k: "drawn_items (calls ?s6) = drawn_items (calls ?s5) @ map timer_item ?ts"
       "calls ?s6 = calls ?s5 @ cs" "timers ?s6 = []" "loads ?s6 = loads ?s5"
       "settled ?s6 = settled ?s5"
    by auto
  from k(1,2) have "drawn_items cs = map timer_item ?ts"
    by (simp add: drawn_items_append)
  with k(2) c5 s2 have "drawn_items (drop (length (calls s)) (calls ?s6)) = map timer_item ?ts"
    by (simp add: drawn_items_append)
  moreover have "map timer_item ?ts
           = map2 (\<lambda>l d. JImg (member l ''value'') (fst d) (snd d)) layers dims
             @ map (\<lambda>i. member i ''value'') items"
    by (simp only: map_append timer_item_layers) (simp add: comp_def)
  ultimately have a: "drawn_items (drop (length (calls s)) (calls ?s6))
           = map2 (\<lambda>l d. JImg (member l ''value'') (fst d) (snd d)) layers dims
             @ map (\<lambda>i. member i ''value'') items"
    by (simp only:)
  have "run (?ld @ replicate (length layers + length items) Tick) (drain (snd (render env s)))
        = ?s6"
    using r dr len by (simp add: run_append)
  with a k ld5 st5 show ?thesis by (simp add: Let_def)
qed

theorem render_draws_everything_witness:
  "drawn_items
     (drop (length (calls (snd (setConfig (SetOne ''background'' (JStr ''blue''))
                                  (instance_with layered_template)))))
        (calls (run [Loaded 0 (Some (64, 32)), Loaded 0 (Some (10, 10)), Tick, Tick, Tick, Tick]
                 (drain (snd (render sample_env
                                (snd (setConfig (SetOne ''background'' (JStr ''blue''))
                                        (instance_with layered_template)))))))))
   = [JImg (JStr ''a.png'') 64 32, JImg (JStr ''b.png'') 10 10, JStr ''Hi'', JStr ''there'']"
proof -
  let ?s = "snd (setConfig (SetOne ''background'' (JStr ''blue'')) (instance_with layered_template))"
  let ?layers = "[JObj [(''value'', JStr ''a.png''),
                        (''props'', JObj [(''x'', JNum 5), (''swidth'', JNum 0)])],
                  JObj [(''value'', JStr ''b.png''), (''props'', JObj [])]]"
  let ?items = "[JObj [(''value'', JStr ''Hi''),
                       (''props'', JObj [(''x'', JNum 10), (''y'', JNum 20)])],
                 JObj [(''value'', JStr ''there''), (''props'', JObj [])]]"
  let ?t = "[(''background'', JStr ''blue''), (''images'', JArr ?layers), (''text'', JArr ?items)]"
  have cv: "obj_get (config ?s) ''canvas'' = JCanvas 0"
    and bg: "obj_get (config ?s) ''background'' = JStr ''blue''" "''blue'' \<noteq> []"
      "isColor sample_env (JStr ''blue'')"
    and tp: "obj_get (config ?s) ''template'' = JObj ?t"
    by code_simp+
  have tp2: "obj_get ?t ''images'' = JArr ?layers" "?layers \<noteq> []" "obj_get ?t ''text'' = JArr ?items"
    by (simp_all add: obj_get_def)
  have lo: "\<forall>l \<in> set ?layers. \<not> nullish l \<and> \<not> nullish (member l ''props'')"
    and io: "\<forall>i \<in> set ?items. \<not> nullish i \<and> member i ''props'' \<noteq> JNull"
    by (simp_all add: obj_get_def)
  have q: "micro ?s = []" "loads ?s = []" "timers ?s = []"
    by code_simp+
  have ds: "length [(64::nat, 32::nat), (10, 10)] = length ?layers" by simp
  from render_draws_everything [OF cv bg tp tp2 lo io q ds]
  have "drawn_items
          (drop (length (calls ?s))
             (calls (run (map (\<lambda>d. Loaded 0 (Some d)) [(64, 32), (10, 10)]
                           @ replicate (length ?layers + length ?items) Tick)
                      (drain (snd (render sample_env ?s))))))
        = map2 (\<lambda>l d. JImg (member l ''value'') (fst d) (snd d)) ?layers [(64, 32), (10, 10)]
          @ map (\<lambda>i. member i ''value'') ?items"
    by (simp only: Let_def)
  also have "\<dots> = [JImg (JStr ''a.png'') 64 32, JImg (JStr ''b.png'') 10 10, JStr ''Hi'',
                    JStr ''there'']"
    by (simp add: obj_get_def)
  finally show ?thesis by simp
qed

text \<open>
  \<^verbatim>\<open>getConfig\<close> with a list of two different keys, neither of them a name inherited from
  \<^verbatim>\<open>Object.prototype\<close>, returns the object with exactly those two keys, each with its stored
  value.
\<close>

theorem getConfig_two_keys:
  "a \<noteq> b \<Longrightarrow> a \<notin> set inherited_names \<Longrightarrow> b \<notin> set inherited_names \<Longrightarrow>
   getConfig (Keys [a, b]) s = Inr (JObj [(a, obj_get (config s) a), (b, obj_get (config s) b)])"
  by (simp add: getConfig_def obj_set_def)

theorem getConfig_two_keys_witness:
  "''width'' \<noteq> ''height''
   \<and> ''width'' \<notin> set inherited_names \<and> ''height'' \<notin> set inherited_names
   \<and> getConfig (Keys [''width'', ''height'']) (instance_with scenario_template)
       = Inr (JObj [(''width'', JNum 400), (''height'', JNum 250)])"
  using getConfig_two_keys [of "''width''" "''height''" "instance_with scenario_template"]
  by (simp add: instance_config obj_get_def inherited_names_def)

text \<open>
  With no background in the configuration and an empty one in the template, on a page
  where \<^verbatim>\<open>undefined\<close> is no colour, \<^verbatim>\<open>renderBackground\<close> fills the surface with the hex value
  of black and warns that no background was given.
\<close>

theorem renderBackground_default_black:
  assumes "obj_get (config s) ''background'' = JUndefined"
    and "\<not> isColor env JUndefined"
    and "\<not> nullish (colorNameToHex env ''black'')"
    and "obj_get (config s) ''canvas'' = JCanvas c"
  shows "renderBackground env s
         = (Inr (),
            s\<lparr>calls := calls s @
                 [(c, BeginPath), (c, SetFillStyle (colorNameToHex env ''black'')),
                  (c, Rect (JNum 0) (JNum 0) (obj_get (config s) ''width'')
                        (obj_get (config s) ''height'')),
                  (c, Fill), (c, ClosePath)],
               warnings := warnings s @ [NoBackgroundWarning]\<rparr>)"
proof -
  from assms(4) have gc: "getContext s = Inr (Some c)"
    by (simp add: getContext_def getConfig_def)
  with assms(3) have "changeBackground (JStr ''color'')
                        (JObj [(''color'', colorNameToHex env ''black'')]) s
      = (Inr c, s\<lparr>calls := calls s @
                 [(c, BeginPath), (c, SetFillStyle (colorNameToHex env ''black'')),
                  (c, Rect (JNum 0) (JNum 0) (obj_get (config s) ''width'')
                        (obj_get (config s) ''height'')),
                  (c, Fill), (c, ClosePath)]\<rparr>)"
    by (simp add: changeBackground_def Let_def get_prop_def log_call_def obj_get_set obj_get_Nil)
       (simp add: obj_get_def)
  with assms(1,2) show ?thesis
    by (simp add: renderBackground_def getConfig_def warn_def)
qed

theorem renderBackground_default_black_witness:
  "obj_get (config (instance_with (JObj [(''background'', JStr '''')]))) ''background'' = JUndefined
   \<and> \<not> isColor sample_env JUndefined
   \<and> \<not> nullish (colorNameToHex sample_env ''black'')
   \<and> obj_get (config (instance_with (JObj [(''background'', JStr '''')]))) ''canvas'' = JCanvas 0
   \<and> calls (snd (renderBackground sample_env (instance_with (JObj [(''background'', JStr '''')]))))
       = [(0, BeginPath), (0, SetFillStyle (JStr ''#000000'')),
          (0, Rect (JNum 0) (JNum 0) (JNum 400) (JNum 250)), (0, Fill), (0, ClosePath)]
   \<and> warnings (snd (renderBackground sample_env (instance_with (JObj [(''background'', JStr '''')]))))
       = [NoBackgroundWarning]"
proof -
  let ?s = "instance_with (JObj [(''background'', JStr '''')])"
  have h: "obj_get (config ?s) ''background'' = JUndefined"
    "\<not> isColor sample_env JUndefined"
    "\<not> nullish (colorNameToHex sample_env ''black'')"
    "obj_get (config ?s) ''canvas'' = JCanvas 0"
    by (simp_all add: instance_config obj_get_def sample_env_def)
  have w: "warnings ?s = []" "calls ?s = []"
    by (simp_all add: instance_with_def putCanvas_def makeCanvas_def makeElement_def
        setConfig_def getConfig_def Let_def default_config_def blank_def obj_set_def obj_get_def
        sample_env_def)
  from renderBackground_default_black [OF h] h w show ?thesis
    by (simp add: instance_config obj_get_def sample_env_def)
qed

end
